theory Spec2Isabelle
  imports Main "HOL-Library.Sublist" "HOL-Library.Signed_Division"
begin

section \<open>The intake page: data model\<close>

text \<open>
  The client script keeps two controller objects, a \<open>VoiceRecorder\<close> and a
  \<open>FileUploader\<close>, inside the closure of its \<open>DOMContentLoaded\<close> handler, and a
  submit handler that drives both. The two serverless handlers \<open>api/upload.js\<close> and
  \<open>api/submit.js\<close> run elsewhere and are modelled as functions of their request.

  What the script touches outside its own objects is made explicit: the elements of the
  page (\<open>dom\<close>), the browser's repeating callbacks (\<open>timers\<close>) and the requests it
  sends. The replies of the two endpoints, the microphone and the clock are inputs.
  An element that the script tests before use (\<open>if (!canvas) return\<close>,
  \<open>if (timeEl)\<close>) is optional in the model; an element that the script dereferences
  without a test and never removes is taken to be on the page. The one element that the
  script removes itself, \<open>#file-count\<close>, is tracked: whether one is inside the preview
  region at the moment, and whether the page has one elsewhere. Messages written to the
  console are not modelled.
\<close>

subsection \<open>Blobs, files and upload requests\<close>

type_synonym bytes = "nat list"

record blob =
  blob_type :: string
  blob_data :: bytes

record jsfile = blob +
  file_name :: string

text \<open>The multipart body of a POST to \<open>/api/upload\<close>: the entries \<open>file\<close> and \<open>type\<close>.\<close>

record upload_request =
  form_file :: jsfile
  form_type :: string

text \<open>
  What the client sees of one upload: \<open>fetch\<close> rejects, the response is not \<open>ok\<close>, the
  response is \<open>ok\<close> but \<open>response.json()\<close> rejects, or the response is \<open>ok\<close> and
  \<open>data.url\<close> is the given string (the storage handler answers \<open>{ url: blob.url }\<close>).
  A \<open>storage\<close> gives the reply to the request that arrives after \<open>n\<close> earlier ones.
\<close>

datatype upload_reply = NetworkError | HttpFailure | BadBody | Stored string

type_synonym storage = "nat \<Rightarrow> upload_request \<Rightarrow> upload_reply"

datatype exn =
  TypeError | InvalidStateError | FetchRejected | JsonRejected | UploadFailed | SubmissionFailed

subsection \<open>The two controllers\<close>

text \<open>
  Of the browser's \<open>MediaRecorder\<close> the model keeps the MIME type it was constructed
  with and whether it is recording. What it delivers (\<open>dataavailable\<close>, \<open>stop\<close>) comes
  in as events.
\<close>

record media_recorder =
  mr_requested_type :: string
  mr_recording :: bool

record recorder =
  mediaRecorder :: "media_recorder option"
  audioChunks :: "bytes list"
  audioBlob :: "blob option"
  audioUrl :: "string option"
  isRecording :: bool
  uploadedUrl :: "string option"
  mimeType :: string
  animationId :: "nat option"
  startTime :: "int option"
  timerInterval :: "nat option"

record uploader =
  files :: "jsfile list"
  uploadedUrls :: "string list"

subsection \<open>The page and the browser\<close>

record dom =
  record_btn_label :: string
  record_btn_classes :: "string set"
  recording_status_classes :: "string set"
  audio_preview_classes :: "string set"
  audio_player_src :: "string option"
  recording_time :: "string option"
  waveform :: "nat list list option"
  file_preview_classes :: "string set"
  file_preview_content :: "(string \<times> jsfile list) option"
  file_count_in_preview :: bool
  file_count_elsewhere :: bool
  submit_disabled :: bool
  submit_text :: string
  form_fields :: "(string \<times> string) list"
  location :: string
  alerts :: "string list"

record timers =
  next_handle :: nat
  intervals :: "nat set"
  frames :: "nat set"

record page =
  recorder :: recorder
  uploader :: uploader
  dom :: dom
  timers :: timers
  upload_log :: "upload_request list"
  submit_log :: "(string \<times> string) list list"

text \<open>
  The state when \<open>DOMContentLoaded\<close> has run both constructors. The page itself (its
  form fields, which optional elements it has) is a parameter.
\<close>

definition new_VoiceRecorder :: recorder where
  "new_VoiceRecorder =
     \<lparr>mediaRecorder = None, audioChunks = [], audioBlob = None, audioUrl = None,
      isRecording = False, uploadedUrl = None, mimeType = [],
      animationId = None, startTime = None, timerInterval = None\<rparr>"

definition new_FileUploader :: uploader where
  "new_FileUploader = \<lparr>files = [], uploadedUrls = []\<rparr>"

definition loaded :: "dom \<Rightarrow> page" where
  "loaded d =
     \<lparr>recorder = new_VoiceRecorder, uploader = new_FileUploader, dom = d,
      timers = \<lparr>next_handle = 1, intervals = {}, frames = {}\<rparr>,
      upload_log = [], submit_log = []\<rparr>"

subsection \<open>Numbers as text\<close>

definition digit :: "nat \<Rightarrow> char" where
  "digit d = ''0123456789'' ! d"

fun decimal :: "nat \<Rightarrow> string" where
  "decimal n = (if n < 10 then [digit n] else decimal (n div 10) @ [digit (n mod 10)])"

declare decimal.simps [simp del]

definition toString :: "int \<Rightarrow> string" where
  "toString i = (if i < 0 then CHR ''-'' # decimal (nat (- i)) else decimal (nat i))"

section \<open>The file uploader\<close>

text \<open>
  \<open>updateUI\<close> rewrites the preview region from \<open>this.files\<close>: hidden and emptied when
  nothing is selected, otherwise the count line and one thumbnail per file. It looks
  \<open>#file-count\<close> up first and writes to it without a test when files are selected, so
  it throws when there is none; emptying the preview removes the one inside it, and the
  render with files puts a new one there. What was changed before the exception stays.
  The result is the exception that leaves the method, if any, and the page.
\<close>

definition count_text :: "nat \<Rightarrow> string" where
  "count_text n = decimal n @ '' file'' @ (if n > 1 then ''s'' else '''') @ '' selected''"

definition uploader_updateUI :: "page \<Rightarrow> exn option \<times> page" where
  "uploader_updateUI p =
     (let fs = files (uploader p); d = dom p;
          fileCount = (file_count_in_preview d \<or> file_count_elsewhere d)
      in if length fs = 0
         then (None,
               p\<lparr>dom := d\<lparr>file_preview_classes := insert ''hidden'' (file_preview_classes d),
                            file_preview_content := None,
                            file_count_in_preview := False\<rparr>\<rparr>)
         else if \<not> fileCount
         then (Some TypeError,
               p\<lparr>dom := d\<lparr>file_preview_classes := file_preview_classes d - {''hidden''}\<rparr>\<rparr>)
         else (None,
               p\<lparr>dom := d\<lparr>file_preview_classes := file_preview_classes d - {''hidden''},
                            file_preview_content := Some (count_text (length fs), fs),
                            file_count_in_preview := True\<rparr>\<rparr>))"

text \<open>
  \<open>addFiles\<close>: the loop body pushes a candidate when both tests pass; the refresh comes
  last, so an exception from it leaves the method with the files already pushed.
\<close>

fun addFiles_loop :: "jsfile list \<Rightarrow> jsfile list \<Rightarrow> jsfile list" where
  "addFiles_loop fs [] = fs"
| "addFiles_loop fs (f # newFiles) =
     addFiles_loop
       (if prefix ''image/'' (blob_type f) \<and> length fs < 10 then fs @ [f] else fs) newFiles"

definition addFiles :: "jsfile list \<Rightarrow> page \<Rightarrow> exn option \<times> page" where
  "addFiles newFiles p =
     uploader_updateUI
       (p\<lparr>uploader := (uploader p)\<lparr>files := addFiles_loop (files (uploader p)) newFiles\<rparr>\<rparr>)"

text \<open>
  \<open>Array.prototype.splice(index, 1)\<close>: a negative index counts from the end, the start is
  clamped to the array, and at most one element is deleted.
\<close>

definition splice1 :: "int \<Rightarrow> 'a list \<Rightarrow> 'a list" where
  "splice1 i xs =
     (let n = int (length xs);
          start = nat (if i < 0 then max (n + i) 0 else min i n)
      in take start xs @ drop (start + 1) xs)"

definition removeFile :: "int \<Rightarrow> page \<Rightarrow> exn option \<times> page" where
  "removeFile i p =
     uploader_updateUI
       (p\<lparr>uploader := (uploader p)\<lparr>files := splice1 i (files (uploader p)),
                                    uploadedUrls := splice1 i (uploadedUrls (uploader p))\<rparr>\<rparr>)"

text \<open>
  \<open>uploadAll\<close>: one request per file, in order. The body of the \<open>try\<close> either throws or
  yields the new URL list; the \<open>catch\<close> swallows what was thrown.
\<close>

definition image_request :: "jsfile \<Rightarrow> upload_request" where
  "image_request f = \<lparr>form_file = f, form_type = ''image''\<rparr>"

definition try_image :: "upload_reply \<Rightarrow> string list \<Rightarrow> exn + string list" where
  "try_image r urls =
     (case r of
        NetworkError \<Rightarrow> Inl FetchRejected
      | HttpFailure \<Rightarrow> Inr urls
      | BadBody \<Rightarrow> Inl JsonRejected
      | Stored u \<Rightarrow> Inr (urls @ [u]))"

fun uploadAll_loop ::
  "storage \<Rightarrow> jsfile list \<Rightarrow> string list \<times> upload_request list
     \<Rightarrow> string list \<times> upload_request list" where
  "uploadAll_loop st [] (urls, log) = (urls, log)"
| "uploadAll_loop st (f # fs) (urls, log) =
     (let req = image_request f;
          r = st (length log) req
      in uploadAll_loop st fs
           (case try_image r urls of Inl e \<Rightarrow> urls | Inr urls' \<Rightarrow> urls', log @ [req]))"

definition uploadAll :: "storage \<Rightarrow> page \<Rightarrow> string list \<times> page" where
  "uploadAll st p =
     (let (urls, log) = uploadAll_loop st (files (uploader p)) ([], upload_log p)
      in (urls, p\<lparr>uploader := (uploader p)\<lparr>uploadedUrls := urls\<rparr>, upload_log := log\<rparr>))"

text \<open>The reply that the \<open>j\<close>-th selected file gets during \<open>uploadAll\<close> on page \<open>p\<close>.\<close>

definition succeeded :: "upload_reply \<Rightarrow> bool" where
  "succeeded r = (case r of Stored u \<Rightarrow> True | _ \<Rightarrow> False)"

definition url_of :: "upload_reply \<Rightarrow> string" where
  "url_of r = (case r of Stored u \<Rightarrow> u | _ \<Rightarrow> [])"

definition reply_to :: "storage \<Rightarrow> page \<Rightarrow> nat \<Rightarrow> upload_reply" where
  "reply_to st p j =
     st (length (upload_log p) + j) (image_request (files (uploader p) ! j))"

text \<open>The selection invariant: at most ten files, all of an image type.\<close>

definition selection_ok :: "page \<Rightarrow> bool" where
  "selection_ok p \<longleftrightarrow>
     length (files (uploader p)) \<le> 10 \<and>
     (\<forall>f \<in> set (files (uploader p)). prefix ''image/'' (blob_type f))"

text \<open>The URLs that a list of replies contributes, in order.\<close>

definition stored_urls :: "upload_reply list \<Rightarrow> string list" where
  "stored_urls rs = concat (map (\<lambda>r. case r of Stored u \<Rightarrow> [u] | _ \<Rightarrow> []) rs)"

section \<open>The voice recorder\<close>

subsection \<open>Truthiness\<close>

text \<open>
  A string or a handle used as a condition: \<open>null\<close>, the empty string and the handle
  \<open>0\<close> count as false.
\<close>

definition truthy :: "string option \<Rightarrow> bool" where
  "truthy v = (case v of None \<Rightarrow> False | Some s \<Rightarrow> s \<noteq> [])"

subsection \<open>init\<close>

text \<open>
  \<open>getUserMedia\<close> either rejects or resolves; in the second case
  \<open>MediaRecorder.isTypeSupported\<close> is the given predicate.
\<close>

datatype microphone = Denied | Granted "string \<Rightarrow> bool"

definition mimeTypes :: "string list" where
  "mimeTypes = [''audio/webm'', ''audio/mp4'', ''audio/ogg'']"

definition init :: "microphone \<Rightarrow> page \<Rightarrow> bool \<times> page" where
  "init mic p =
     (case mic of
        Denied \<Rightarrow> (False, p)
      | Granted isTypeSupported \<Rightarrow>
          (let t = (case find isTypeSupported mimeTypes of None \<Rightarrow> [] | Some t \<Rightarrow> t)
           in (True, p\<lparr>recorder := (recorder p)
                 \<lparr>mimeType := t,
                  mediaRecorder := Some \<lparr>mr_requested_type = t, mr_recording = False\<rparr>\<rparr>\<rparr>)))"

subsection \<open>updateUI\<close>

text \<open>
  The record button's markup is an icon followed by a label; the model keeps the label.
\<close>

definition recorder_updateUI :: "page \<Rightarrow> page" where
  "recorder_updateUI p =
     (let d = dom p in
      if isRecording (recorder p)
      then p\<lparr>dom := d
             \<lparr>record_btn_label := ''Stop Recording'',
              record_btn_classes :=
                (record_btn_classes d \<union> {''bg-red-600'', ''hover:bg-red-700''})
                  - {''bg-gray-900'', ''hover:bg-gray-800''},
              recording_status_classes := recording_status_classes d - {''hidden''}\<rparr>\<rparr>
      else p\<lparr>dom := d
             \<lparr>record_btn_label := ''Start Recording'',
              record_btn_classes :=
                (record_btn_classes d - {''bg-red-600'', ''hover:bg-red-700''})
                  \<union> {''bg-gray-900'', ''hover:bg-gray-800''},
              recording_status_classes := insert ''hidden'' (recording_status_classes d),
              audio_preview_classes :=
                (if truthy (audioUrl (recorder p))
                 then audio_preview_classes d - {''hidden''} else audio_preview_classes d),
              audio_player_src :=
                (if truthy (audioUrl (recorder p))
                 then audioUrl (recorder p) else audio_player_src d)\<rparr>\<rparr>)"

subsection \<open>The recorder's callbacks\<close>

text \<open>\<open>ondataavailable\<close>: a chunk is kept when it is not empty.\<close>

definition ondataavailable :: "bytes \<Rightarrow> page \<Rightarrow> page" where
  "ondataavailable chunk p =
     (if length chunk > 0
      then p\<lparr>recorder := (recorder p)\<lparr>audioChunks := audioChunks (recorder p) @ [chunk]\<rparr>\<rparr>
      else p)"

text \<open>
  The type that \<open>new Blob(parts, { type })\<close> gives the blob: the empty string when the
  given type has a character outside U+0020 to U+007E, and the type in ASCII lower case
  otherwise.
\<close>

definition ascii_lower :: "char \<Rightarrow> char" where
  "ascii_lower c =
     (if 65 \<le> (of_char c :: nat) \<and> (of_char c :: nat) \<le> 90
      then char_of ((of_char c :: nat) + 32) else c)"

definition new_Blob_type :: "string \<Rightarrow> string" where
  "new_Blob_type t =
     (if list_all (\<lambda>c. 32 \<le> (of_char c :: nat) \<and> (of_char c :: nat) \<le> 126) t
      then map ascii_lower t else [])"

text \<open>
  \<open>onstop\<close>: \<open>mr_type\<close> is what \<open>this.mediaRecorder.mimeType\<close> reads at that moment and
  \<open>url\<close> is what \<open>URL.createObjectURL\<close> returns for the new blob.
\<close>

definition onstop :: "string \<Rightarrow> string \<Rightarrow> page \<Rightarrow> page" where
  "onstop mr_type url p =
     (let r = recorder p;
          actualType = (if mr_type \<noteq> [] then mr_type
                        else if mimeType r \<noteq> [] then mimeType r else ''audio/webm'');
          b = \<lparr>blob_type = new_Blob_type actualType, blob_data = concat (audioChunks r)\<rparr>
      in recorder_updateUI (p\<lparr>recorder := r\<lparr>audioBlob := Some b, audioUrl := Some url\<rparr>\<rparr>))"

subsection \<open>The waveform loop\<close>

text \<open>
  \<open>requestAnimationFrame\<close> and \<open>setInterval\<close> hand out fresh handles; the browser keeps
  the set of pending frame requests and of running intervals. The only frame callback
  is \<open>draw\<close> and the only interval callback is the one of \<open>startTimer\<close>. Of the canvas
  the model keeps which sample arrays were drawn, in order.
\<close>

definition requestAnimationFrame :: "timers \<Rightarrow> nat \<times> timers" where
  "requestAnimationFrame t =
     (next_handle t, t\<lparr>next_handle := next_handle t + 1, frames := insert (next_handle t) (frames t)\<rparr>)"

definition cancelAnimationFrame :: "nat \<Rightarrow> timers \<Rightarrow> timers" where
  "cancelAnimationFrame h t = t\<lparr>frames := frames t - {h}\<rparr>"

definition setInterval :: "timers \<Rightarrow> nat \<times> timers" where
  "setInterval t =
     (next_handle t,
      t\<lparr>next_handle := next_handle t + 1, intervals := insert (next_handle t) (intervals t)\<rparr>)"

definition clearInterval :: "nat \<Rightarrow> timers \<Rightarrow> timers" where
  "clearInterval h t = t\<lparr>intervals := intervals t - {h}\<rparr>"

definition draw :: "nat list \<Rightarrow> page \<Rightarrow> page" where
  "draw samples p =
     (if \<not> isRecording (recorder p) then p
      else
        (let (h, t) = requestAnimationFrame (timers p)
         in p\<lparr>recorder := (recorder p)\<lparr>animationId := Some h\<rparr>,
              timers := t,
              dom := (dom p)\<lparr>waveform := map_option (\<lambda>drawn. drawn @ [samples])
                                              (waveform (dom p))\<rparr>\<rparr>))"

definition startWaveform :: "nat list \<Rightarrow> page \<Rightarrow> page" where
  "startWaveform samples p =
     (case waveform (dom p) of None \<Rightarrow> p | Some drawn \<Rightarrow> draw samples p)"

definition stopWaveform :: "page \<Rightarrow> page" where
  "stopWaveform p =
     (case animationId (recorder p) of
        None \<Rightarrow> p
      | Some h \<Rightarrow>
          if h = 0 then p
          else p\<lparr>timers := cancelAnimationFrame h (timers p),
                 recorder := (recorder p)\<lparr>animationId := None\<rparr>\<rparr>)"

subsection \<open>The elapsed-time timer\<close>

definition padStart2 :: "string \<Rightarrow> string" where
  "padStart2 s = replicate (2 - length s) CHR ''0'' @ s"

definition time_label :: "int \<Rightarrow> int option \<Rightarrow> string" where
  "time_label now started =
     (let elapsed = (now - (case started of None \<Rightarrow> 0 | Some s \<Rightarrow> s)) div 1000;
          mins = elapsed div 60;
          secs = elapsed smod 60
      in toString mins @ '':'' @ padStart2 (toString secs))"

definition timer_tick :: "int \<Rightarrow> page \<Rightarrow> page" where
  "timer_tick now p =
     p\<lparr>dom := (dom p)\<lparr>recording_time := Some (time_label now (startTime (recorder p)))\<rparr>\<rparr>"

definition startTimer :: "page \<Rightarrow> page" where
  "startTimer p =
     (case recording_time (dom p) of
        None \<Rightarrow> p
      | Some label \<Rightarrow>
          (let (h, t) = setInterval (timers p)
           in p\<lparr>recorder := (recorder p)\<lparr>timerInterval := Some h\<rparr>, timers := t\<rparr>))"

definition stopTimer :: "page \<Rightarrow> page" where
  "stopTimer p =
     (case timerInterval (recorder p) of
        None \<Rightarrow> p
      | Some h \<Rightarrow>
          if h = 0 then p
          else p\<lparr>timers := clearInterval h (timers p),
                 recorder := (recorder p)\<lparr>timerInterval := None\<rparr>\<rparr>)"

subsection \<open>start and stop\<close>

text \<open>
  \<open>now\<close> is \<open>Date.now()\<close> and \<open>samples\<close> is what the analyser delivers to the first
  \<open>draw\<close>. Without a \<open>mediaRecorder\<close> the call on it throws; \<open>MediaRecorder.start\<close>
  throws when it is already recording, and \<open>MediaRecorder.stop\<close> leaves an inactive
  recorder as it is.
\<close>

definition start :: "int \<Rightarrow> nat list \<Rightarrow> page \<Rightarrow> exn + page" where
  "start now samples p =
     (case mediaRecorder (recorder p) of
        None \<Rightarrow> Inl TypeError
      | Some mr \<Rightarrow>
          if mr_recording mr then Inl InvalidStateError
          else Inr (startTimer (startWaveform samples (recorder_updateUI
                 (p\<lparr>recorder := (recorder p)
                      \<lparr>audioChunks := [],
                       mediaRecorder := Some (mr\<lparr>mr_recording := True\<rparr>),
                       isRecording := True,
                       startTime := Some now\<rparr>\<rparr>)))))"

definition stop :: "page \<Rightarrow> exn + page" where
  "stop p =
     (case mediaRecorder (recorder p) of
        None \<Rightarrow> Inl TypeError
      | Some mr \<Rightarrow>
          Inr (stopTimer (stopWaveform
                 (p\<lparr>recorder := (recorder p)
                      \<lparr>mediaRecorder := Some (mr\<lparr>mr_recording := False\<rparr>),
                       isRecording := False\<rparr>\<rparr>))))"

subsection \<open>upload and clear\<close>

definition audio_ext :: "string \<Rightarrow> string" where
  "audio_ext t =
     (if sublist ''mp4'' t then ''m4a'' else if sublist ''ogg'' t then ''ogg'' else ''webm'')"

definition audio_request :: "blob \<Rightarrow> upload_request" where
  "audio_request b =
     \<lparr>form_file = \<lparr>blob_type = blob_type b, blob_data = blob_data b,
                   file_name = ''recording.'' @ audio_ext (blob_type b)\<rparr>,
      form_type = ''audio''\<rparr>"

definition try_audio :: "upload_reply \<Rightarrow> exn + string" where
  "try_audio r =
     (case r of
        NetworkError \<Rightarrow> Inl FetchRejected
      | HttpFailure \<Rightarrow> Inl UploadFailed
      | BadBody \<Rightarrow> Inl JsonRejected
      | Stored u \<Rightarrow> Inr u)"

definition upload :: "storage \<Rightarrow> page \<Rightarrow> string option \<times> page" where
  "upload st p =
     (case audioBlob (recorder p) of
        None \<Rightarrow> (None, p)
      | Some b \<Rightarrow>
          (let req = audio_request b;
               r = st (length (upload_log p)) req;
               p1 = p\<lparr>upload_log := upload_log p @ [req]\<rparr>
           in case try_audio r of
                Inl e \<Rightarrow> (None, p1)
              | Inr u \<Rightarrow> (Some u, p1\<lparr>recorder := (recorder p1)\<lparr>uploadedUrl := Some u\<rparr>\<rparr>)))"

definition clear :: "page \<Rightarrow> page" where
  "clear p =
     p\<lparr>recorder := (recorder p)
         \<lparr>audioChunks := [], audioBlob := None, audioUrl := None, uploadedUrl := None\<rparr>,
       dom := (dom p)
         \<lparr>audio_preview_classes := insert ''hidden'' (audio_preview_classes (dom p)),
          recording_time := (case recording_time (dom p) of
                               None \<Rightarrow> None | Some label \<Rightarrow> Some ''0:00'')\<rparr>\<rparr>"

subsection \<open>The buttons of the recorder\<close>

text \<open>
  The click handler of the record button: initialise on first use, then toggle. An
  exception from \<open>start\<close> or \<open>stop\<close> would leave the handler.
\<close>

definition record_click :: "microphone \<Rightarrow> int \<Rightarrow> nat list \<Rightarrow> page \<Rightarrow> exn + page" where
  "record_click mic now samples p =
     (let (success, p1) =
            (if mediaRecorder (recorder p) = None then init mic p else (True, p))
      in if \<not> success
         then Inr (p1\<lparr>dom := (dom p1)\<lparr>alerts := alerts (dom p1) @
                [''Could not access microphone. Please allow microphone access and try again.'']\<rparr>\<rparr>)
         else if isRecording (recorder p1) then stop p1
         else start now samples p1)"

text \<open>\<open>n\<close> calls of \<open>upload\<close> in a row, with what each of them returns.\<close>

fun upload_times :: "storage \<Rightarrow> nat \<Rightarrow> page \<Rightarrow> string option list \<times> page" where
  "upload_times st 0 p = ([], p)"
| "upload_times st (Suc n) p =
     (let (r, p1) = upload st p;
          (rs, p2) = upload_times st n p1
      in (r # rs, p2))"

section \<open>The submission sequencer\<close>

text \<open>
  What the client sees of the POST to \<open>/api/submit\<close>: \<open>fetch\<close> rejects, or a response
  with its \<open>redirected\<close> flag, its \<open>ok\<close> flag and its \<open>url\<close>. A \<open>submission\<close> endpoint
  gives the reply to the payload that arrives after \<open>n\<close> earlier ones.
\<close>

datatype submit_reply = SubmitRejected | SubmitResponse bool bool string

type_synonym submission = "nat \<Rightarrow> (string \<times> string) list \<Rightarrow> submit_reply"

text \<open>\<open>Array.prototype.join(',')\<close>.\<close>

fun join :: "string list \<Rightarrow> string" where
  "join [] = []"
| "join [u] = u"
| "join (u # us) = u @ '','' @ join us"

text \<open>The body of the final \<open>try\<close>: where to navigate, or what is thrown.\<close>

definition try_submit :: "submit_reply \<Rightarrow> exn + string" where
  "try_submit r =
     (case r of
        SubmitRejected \<Rightarrow> Inl FetchRejected
      | SubmitResponse redirected ok url \<Rightarrow>
          if redirected then Inr url
          else if ok then Inr ''/thank-you.html''
          else Inl SubmissionFailed)"

text \<open>
  The submit handler, in the order of the source: disable the button, upload the audio
  if there is an artifact, upload the images if any are selected, build the payload,
  post it. \<open>new FormData(form)\<close> reads the form's fields; they are a parameter of the
  page (\<open>form_fields\<close>), and the handler never writes them. The browser raises the
  \<open>submit\<close> event only after its own check of the required fields.
\<close>

definition upload_media :: "storage \<Rightarrow> page \<Rightarrow> string option \<times> string list \<times> page" where
  "upload_media st p0 =
     (let p1 = p0\<lparr>dom := (dom p0)\<lparr>submit_disabled := True,
                                  submit_text := ''Uploading files...''\<rparr>\<rparr>;
          (audioUrl, p2) =
            (if audioBlob (recorder p1) \<noteq> None then upload st p1 else (None, p1));
          (imageUrls, p3) =
            (if length (files (uploader p2)) > 0
             then uploadAll st (p2\<lparr>dom := (dom p2)\<lparr>submit_text := ''Uploading images...''\<rparr>\<rparr>)
             else ([], p2))
      in (audioUrl, imageUrls, p3\<lparr>dom := (dom p3)\<lparr>submit_text := ''Sending...''\<rparr>\<rparr>))"

definition formData ::
  "(string \<times> string) list \<Rightarrow> string option \<Rightarrow> string list \<Rightarrow> (string \<times> string) list" where
  "formData entries audio images =
     entries
     @ (case audio of
          None \<Rightarrow> []
        | Some u \<Rightarrow> if u \<noteq> [] then [(''audio-url'', u)] else [])
     @ (if length images > 0 then [(''image-urls'', join images)] else [])"

definition submit_handler :: "storage \<Rightarrow> submission \<Rightarrow> page \<Rightarrow> page" where
  "submit_handler st sub p0 =
     (let (audioUrl, imageUrls, p4) = upload_media st p0;
          payload = formData (form_fields (dom p4)) audioUrl imageUrls;
          r = sub (length (submit_log p4)) payload;
          p5 = p4\<lparr>submit_log := submit_log p4 @ [payload]\<rparr>
      in case try_submit r of
           Inr href \<Rightarrow> p5\<lparr>dom := (dom p5)\<lparr>location := href\<rparr>\<rparr>
         | Inl e \<Rightarrow>
             p5\<lparr>dom := (dom p5)
                  \<lparr>alerts := alerts (dom p5) @ [''Something went wrong. Please try again.''],
                   submit_disabled := False,
                   submit_text := ''Submit Project Inquiry''\<rparr>\<rparr>)"

text \<open>
  The payload that the handler posts from page \<open>p\<close>, and whether a reply to it is a
  failure: a rejected \<open>fetch\<close>, or a response that is neither redirected nor \<open>ok\<close>.
\<close>

definition payload_of :: "storage \<Rightarrow> page \<Rightarrow> (string \<times> string) list" where
  "payload_of st p =
     (let (audioUrl, imageUrls, p4) = upload_media st p
      in formData (form_fields (dom p4)) audioUrl imageUrls)"

definition post_failed :: "submit_reply \<Rightarrow> bool" where
  "post_failed r =
     (case r of
        SubmitRejected \<Rightarrow> True
      | SubmitResponse redirected ok url \<Rightarrow> \<not> redirected \<and> \<not> ok)"

text \<open>The requests of a log that carry a given type discriminator.\<close>

definition requests_of_type :: "string \<Rightarrow> upload_request list \<Rightarrow> upload_request list" where
  "requests_of_type t log = filter (\<lambda>r. form_type r = t) log"

text \<open>The values a payload has under a field name.\<close>

definition field_values :: "string \<Rightarrow> (string \<times> string) list \<Rightarrow> string list" where
  "field_values k payload = map snd (filter (\<lambda>kv. fst kv = k) payload)"

section \<open>Events on the page\<close>

text \<open>
  Everything that the listeners of the page react to: the record and clear buttons, the
  callbacks of the media recorder, the file input and the drop zone, the remove buttons
  of the thumbnails, the form's submit event, and the browser firing a pending frame
  request or a running interval. A frame request fires once; an interval stays. A call
  of \<open>upload\<close> on its own is an event as well. Each handler runs to its end before the
  next event is taken. An exception that leaves a listener of the uploader is reported by
  the browser and the page goes on in the state the listener left; a step whose result
  is \<open>Inl\<close> comes from \<open>start\<close> or \<open>stop\<close> only.
\<close>

datatype event =
    RecordClick microphone int "nat list"
  | ClearClick
  | DataAvailable bytes
  | Stopped string string
  | Upload
  | Frame nat "nat list"
  | Tick nat int
  | AddFiles "jsfile list"
  | RemoveClick int
  | Submit

definition fire_frame :: "nat \<Rightarrow> nat list \<Rightarrow> page \<Rightarrow> page" where
  "fire_frame h samples p =
     (if h \<in> frames (timers p)
      then draw samples (p\<lparr>timers := (timers p)\<lparr>frames := frames (timers p) - {h}\<rparr>\<rparr>)
      else p)"

definition fire_interval :: "nat \<Rightarrow> int \<Rightarrow> page \<Rightarrow> page" where
  "fire_interval h now p = (if h \<in> intervals (timers p) then timer_tick now p else p)"

definition step :: "storage \<Rightarrow> submission \<Rightarrow> event \<Rightarrow> page \<Rightarrow> exn + page" where
  "step st sub e p =
     (case e of
        RecordClick mic now samples \<Rightarrow> record_click mic now samples p
      | ClearClick \<Rightarrow> Inr (clear p)
      | DataAvailable chunk \<Rightarrow> Inr (ondataavailable chunk p)
      | Stopped mr_type url \<Rightarrow> Inr (onstop mr_type url p)
      | Upload \<Rightarrow> Inr (snd (upload st p))
      | Frame h samples \<Rightarrow> Inr (fire_frame h samples p)
      | Tick h now \<Rightarrow> Inr (fire_interval h now p)
      | AddFiles newFiles \<Rightarrow> Inr (snd (addFiles newFiles p))
      | RemoveClick i \<Rightarrow> Inr (snd (removeFile i p))
      | Submit \<Rightarrow> Inr (submit_handler st sub p))"

fun run :: "storage \<Rightarrow> submission \<Rightarrow> event list \<Rightarrow> page \<Rightarrow> exn + page" where
  "run st sub [] p = Inr p"
| "run st sub (e # es) p =
     (case step st sub e p of Inl x \<Rightarrow> Inl x | Inr p' \<Rightarrow> run st sub es p')"

text \<open>The passing of time alone: frames and intervals fire, nothing else happens.\<close>

fun time_passes :: "event list \<Rightarrow> bool" where
  "time_passes [] = True"
| "time_passes (Frame h samples # es) = time_passes es"
| "time_passes (Tick h now # es) = time_passes es"
| "time_passes (e # es) = False"


text \<open>
  Whether the uploaded URL was returned for an audio upload at all: some request of the
  log had the type \<open>audio\<close> and was answered with this URL.
\<close>

definition url_of_some_artifact :: "storage \<Rightarrow> page \<Rightarrow> bool" where
  "url_of_some_artifact st p =
     (case uploadedUrl (recorder p) of
        None \<Rightarrow> True
      | Some u \<Rightarrow>
          list_ex (\<lambda>k. form_type (upload_log p ! k) = ''audio''
                          \<and> st k (upload_log p ! k) = Stored u)
            [0..<length (upload_log p)])"

text \<open>
  Two invariants of the pages reached from the loaded page. The first: the uploaded URL
  was returned for an audio upload, and without an artifact there is no uploaded URL.
  The second: every pending frame request and every running interval is the one whose
  handle the recorder holds, none is left when the recorder is not recording, and a
  recorder that is recording has its media recorder.
\<close>

definition artifact_inv :: "storage \<Rightarrow> page \<Rightarrow> bool" where
  "artifact_inv st p \<longleftrightarrow>
     url_of_some_artifact st p
     \<and> (audioBlob (recorder p) = None \<longrightarrow> uploadedUrl (recorder p) = None)"

definition loops_tracked :: "page \<Rightarrow> bool" where
  "loops_tracked p \<longleftrightarrow>
     next_handle (timers p) \<noteq> 0
     \<and> frames (timers p) \<subseteq> set_option (animationId (recorder p)) - {0}
     \<and> intervals (timers p) \<subseteq> set_option (timerInterval (recorder p)) - {0}
     \<and> (\<not> isRecording (recorder p) \<longrightarrow> frames (timers p) = {} \<and> intervals (timers p) = {})
     \<and> (isRecording (recorder p) \<longrightarrow> mediaRecorder (recorder p) \<noteq> None)"

section \<open>The submission endpoint: the email body\<close>

text \<open>
  \<open>api/submit.js\<close> flattens the fields of the form into \<open>data\<close>, a lookup from a field
  name to a string or to \<open>undefined\<close>, and formats the email from it.
\<close>

subsection \<open>escapeHtml\<close>

text \<open>\<open>text.replace(/c/g, s)\<close> for a single character \<open>c\<close>.\<close>

definition replace_all :: "char \<Rightarrow> string \<Rightarrow> string \<Rightarrow> string" where
  "replace_all c s text = concat (map (\<lambda>x. if x = c then s else [x]) text)"

definition escapeHtml :: "string option \<Rightarrow> string" where
  \<open>escapeHtml text =
     (case text of
        None \<Rightarrow> []
      | Some t \<Rightarrow>
          if t = [] then []
          else replace_all CHR ''\<newline>'' ''<br>''
                (replace_all CHR 0x27 ''&#039;''
                  (replace_all CHR ''"'' ''&quot;''
                    (replace_all CHR ''>'' ''&gt;''
                      (replace_all CHR ''<'' ''&lt;''
                        (replace_all CHR ''&'' ''&amp;'' t))))))\<close>

text \<open>What the claim says of it: each character is replaced on its own.\<close>

definition escape_char :: "char \<Rightarrow> string" where
  \<open>escape_char c =
     (if c = CHR ''&'' then ''&amp;''
      else if c = CHR ''<'' then ''&lt;''
      else if c = CHR ''>'' then ''&gt;''
      else if c = CHR ''"'' then ''&quot;''
      else if c = CHR 0x27 then ''&#039;''
      else if c = CHR ''\<newline>'' then ''<br>''
      else [c])\<close>

subsection \<open>The fixed parts of the email\<close>

definition html_open :: string where
  \<open>html_open =
     ''\<newline>'' @
     ''    <div style="font-family: -apple-system, BlinkMacSystemFont, 'Segoe UI', Roboto, sans-serif; max-width: 600px; margin: 0 auto;">\<newline>'' @
     ''      <h1 style="color: #111827; border-bottom: 2px solid #e5e7eb; padding-bottom: 12px;">New Project Inquiry</h1>\<newline>'' @
     ''  ''\<close>

definition h2_open :: string where
  \<open>h2_open =
     ''<h2 style="color: #374151; font-size: 16px; margin-top: 24px; margin-bottom: 12px;">''\<close>

definition h2_close :: string where
  \<open>h2_close =
     ''</h2>''\<close>

definition table_open :: string where
  \<open>table_open =
     ''<table style="width: 100%; border-collapse: collapse;">''\<close>

definition row_open :: string where
  \<open>row_open =
     ''\<newline>'' @
     ''          <tr>\<newline>'' @
     ''            <td style="padding: 8px 0; color: #6b7280; width: 140px; vertical-align: top;">''\<close>

definition row_middle :: string where
  \<open>row_middle =
     ''</td>\<newline>'' @
     ''            <td style="padding: 8px 0; color: #111827;">''\<close>

definition row_close :: string where
  \<open>row_close =
     ''</td>\<newline>'' @
     ''          </tr>\<newline>'' @
     ''        ''\<close>

definition table_close :: string where
  \<open>table_close =
     ''</table>''\<close>

definition audio_open :: string where
  \<open>audio_open =
     ''\<newline>'' @
     ''      <h2 style="color: #374151; font-size: 16px; margin-top: 24px; margin-bottom: 12px;">Voice Recording</h2>\<newline>'' @
     ''      <p style="color: #111827;">\<newline>'' @
     ''        <a href="''\<close>

definition audio_close :: string where
  \<open>audio_close =
     ''" style="color: #2563eb; text-decoration: underline;">Listen to recording</a>\<newline>'' @
     ''      </p>\<newline>'' @
     ''    ''\<close>

definition images_open :: string where
  \<open>images_open =
     ''\<newline>'' @
     ''      <h2 style="color: #374151; font-size: 16px; margin-top: 24px; margin-bottom: 12px;">Uploaded Images (''\<close>

definition images_middle :: string where
  \<open>images_middle =
     '')</h2>\<newline>'' @
     ''      <div style="display: flex; flex-wrap: wrap; gap: 8px;">\<newline>'' @
     ''    ''\<close>

definition image_open :: string where
  \<open>image_open =
     ''\<newline>'' @
     ''        <a href="''\<close>

definition image_middle :: string where
  \<open>image_middle =
     ''" target="_blank" style="display: inline-block;">\<newline>'' @
     ''          <img src="''\<close>

definition image_close :: string where
  \<open>image_close =
     ''" style="width: 120px; height: 80px; object-fit: cover; border-radius: 4px; border: 1px solid #e5e7eb;">\<newline>'' @
     ''        </a>\<newline>'' @
     ''      ''\<close>

definition images_close :: string where
  \<open>images_close =
     ''</div>''\<close>

definition html_close :: string where
  \<open>html_close =
     ''\<newline>'' @
     ''      <hr style="border: none; border-top: 1px solid #e5e7eb; margin-top: 32px;">\<newline>'' @
     ''      <p style="color: #9ca3af; font-size: 12px;">Submitted via intake.sailorskills.com</p>\<newline>'' @
     ''    </div>\<newline>'' @
     ''  ''\<close>

definition sections :: "(string \<times> (string \<times> string) list) list" where
  \<open>sections =
     [(''Contact Information'',
        [(''Name'', ''name''),
         (''Email'', ''email''),
         (''Phone'', ''phone''),
         (''Company'', ''company'')]),
      (''About Their Business'',
        [(''Business Description'', ''business-description''),
         (''Current Website'', ''current-website''),
         (''What's Working'', ''site-working''),
         (''What's NOT Working'', ''site-frustrations''),
         (''Ideal Customer'', ''ideal-customer''),
         (''Market Positioning'', ''positioning'')]),
      (''Project Details'',
        [(''How Customers Find Them'', ''lead-source''),
         (''Primary Conversion Goal'', ''conversion-goal''),
         (''Project Type'', ''project-type''),
         (''Pages Needed'', ''pages-needed''),
         (''Features'', ''features'')]),
      (''Assets & Content'',
        [(''Has Logo'', ''has-logo''),
         (''Has Photos'', ''has-photos''),
         (''Has Copy'', ''has-copy'')]),
      (''Design & Timeline'',
        [(''Inspiration Sites'', ''inspiration''),
         (''Why They Like Them'', ''inspiration-why''),
         (''Timeline'', ''timeline''),
         (''Budget'', ''budget'')]),
      (''After Launch'',
        [(''Post-Launch Preference'', ''post-launch'')]),
      (''Additional Info'',
        [(''Additional Details'', ''additional''),
         (''Referral Source'', ''referral'')])]\<close>

subsection \<open>formatEmailBody\<close>

text \<open>\<open>String.prototype.split\<close> with a one-character separator.\<close>

fun split :: "char \<Rightarrow> string \<Rightarrow> string list" where
  "split c [] = [[]]"
| "split c (x # xs) =
     (if x = c then [] # split c xs
      else (case split c xs of [] \<Rightarrow> [[x]] | w # ws \<Rightarrow> (x # w) # ws))"

definition field_row :: "string \<Rightarrow> string option \<Rightarrow> string" where
  "field_row label value =
     (if truthy value then row_open @ label @ row_middle @ escapeHtml value @ row_close
      else [])"

definition section_html ::
  "(string \<Rightarrow> string option) \<Rightarrow> string \<times> (string \<times> string) list \<Rightarrow> string" where
  "section_html data sec =
     foldl (\<lambda>html (label, key). html @ field_row label (data key))
       (h2_open @ fst sec @ h2_close @ table_open) (snd sec)
     @ table_close"

definition image_html :: "string \<Rightarrow> string" where
  "image_html url =
     image_open @ escapeHtml (Some url) @ image_middle @ escapeHtml (Some url) @ image_close"

definition formatEmailBody :: "(string \<Rightarrow> string option) \<Rightarrow> string" where
  "formatEmailBody data =
     (let html1 = foldl (\<lambda>html sec. html @ section_html data sec) html_open sections;
          html2 = (if truthy (data ''audio-url'')
                   then html1 @ audio_open @ escapeHtml (data ''audio-url'') @ audio_close
                   else html1);
          html3 = (case data ''image-urls'' of
                     None \<Rightarrow> html2
                   | Some s \<Rightarrow>
                       if s = [] then html2
                       else
                         (let imageUrls = split CHR '','' s
                          in foldl (\<lambda>html url. html @ image_html url)
                               (html2 @ images_open @ decimal (length imageUrls) @ images_middle)
                               imageUrls
                             @ images_close))
      in html3 @ html_close)"

text \<open>
  For comparison: an email assembled from values that are escaped already. It takes the
  escaped value of each field and the escaped image URLs, and applies no escaping of
  its own.
\<close>

definition escaped_row :: "string \<Rightarrow> string \<Rightarrow> string" where
  "escaped_row label escaped =
     (if escaped = [] then [] else row_open @ label @ row_middle @ escaped @ row_close)"

definition escaped_section ::
  "(string \<Rightarrow> string) \<Rightarrow> string \<times> (string \<times> string) list \<Rightarrow> string" where
  "escaped_section esc sec =
     h2_open @ fst sec @ h2_close @ table_open
     @ concat (map (\<lambda>(label, key). escaped_row label (esc key)) (snd sec))
     @ table_close"

definition escaped_email :: "(string \<Rightarrow> string) \<Rightarrow> string list \<Rightarrow> string" where
  "escaped_email esc urls =
     html_open
     @ concat (map (escaped_section esc) sections)
     @ (if esc ''audio-url'' = [] then [] else audio_open @ esc ''audio-url'' @ audio_close)
     @ (if urls = [] then []
        else images_open @ decimal (length urls) @ images_middle
             @ concat (map (\<lambda>u. image_open @ u @ image_middle @ u @ image_close) urls)
             @ images_close)
     @ html_close"

definition image_urls :: "(string \<Rightarrow> string option) \<Rightarrow> string list" where
  "image_urls data =
     (case data ''image-urls'' of
        None \<Rightarrow> []
      | Some s \<Rightarrow> if s = [] then [] else split CHR '','' s)"

section \<open>The storage endpoint\<close>

text \<open>
  \<open>api/upload.js\<close>. The parsed form delivers \<open>fields.type\<close> as \<open>undefined\<close>, a string or
  an array of strings, and \<open>files.file\<close> as nothing, one file or an array of files.
\<close>

datatype js = Undefined | Str string | Arr "string list"

datatype 'a formidable = Missing | One 'a | Several "'a list"

record upfile =
  filepath :: string
  originalFilename :: "string option"
  mimetype :: "string option"

text \<open>\<open>v?.[0]\<close>, \<open>a || b\<close> and \<open>`${v}`\<close> on these values.\<close>

definition first_of :: "js \<Rightarrow> js" where
  "first_of v =
     (case v of
        Undefined \<Rightarrow> Undefined
      | Str s \<Rightarrow> (case s of [] \<Rightarrow> Undefined | c # cs \<Rightarrow> Str [c])
      | Arr xs \<Rightarrow> (case xs of [] \<Rightarrow> Undefined | x # ys \<Rightarrow> Str x))"

definition js_truthy :: "js \<Rightarrow> bool" where
  "js_truthy v = (case v of Undefined \<Rightarrow> False | Str s \<Rightarrow> s \<noteq> [] | Arr xs \<Rightarrow> True)"

definition js_or :: "js \<Rightarrow> js \<Rightarrow> js" where
  "js_or a b = (if js_truthy a then a else b)"

definition template :: "js \<Rightarrow> string" where
  "template v = (case v of Undefined \<Rightarrow> ''undefined'' | Str s \<Rightarrow> s | Arr xs \<Rightarrow> join xs)"

text \<open>\<open>fields.type?.[0] || fields.type || 'file'\<close> and \<open>files.file?.[0] || files.file\<close>.\<close>

definition upload_type :: "js \<Rightarrow> js" where
  "upload_type ftype = js_or (js_or (first_of ftype) ftype) (Str ''file'')"

definition upload_file :: "upfile formidable \<Rightarrow> upfile formidable" where
  "upload_file ffile =
     (case ffile of
        Missing \<Rightarrow> Missing
      | One f \<Rightarrow> One f
      | Several fs \<Rightarrow> (case fs of [] \<Rightarrow> Several [] | f # gs \<Rightarrow> One f))"

text \<open>\<open>Array.prototype.pop\<close>, for its result.\<close>

definition pop :: "'a list \<Rightarrow> 'a option" where
  "pop xs = (if xs = [] then None else Some (last xs))"

definition extension :: "js \<Rightarrow> upfile \<Rightarrow> string" where
  "extension type f =
     (if type = Str ''audio'' then ''webm''
      else (case originalFilename f of
              None \<Rightarrow> ''jpg''
            | Some n \<Rightarrow>
                (case pop (split CHR ''.'' n) of
                   None \<Rightarrow> ''jpg''
                 | Some e \<Rightarrow> if e = [] then ''jpg'' else e)))"

text \<open>
  What the handler reads from its surroundings: the clock, the random suffix, whether
  the temporary file can be read and removed, and what \<open>put\<close> answers for a name.
\<close>

record upload_env =
  env_now :: nat
  env_random :: string
  env_readable :: "string \<Rightarrow> bool"
  env_put :: "string \<Rightarrow> string option"
  env_unlink :: "string \<Rightarrow> bool"

definition filename :: "upload_env \<Rightarrow> js \<Rightarrow> upfile \<Rightarrow> string" where
  "filename env type f =
     ''intake/'' @ template type @ ''/'' @ decimal (env_now env) @ ''-'' @ env_random env
     @ ''.'' @ extension type f"

datatype upload_response = MethodNotAllowed | NoFileProvided | UploadError | UploadOk string

definition status :: "upload_response \<Rightarrow> nat" where
  "status r =
     (case r of MethodNotAllowed \<Rightarrow> 405 | NoFileProvided \<Rightarrow> 400
      | UploadError \<Rightarrow> 500 | UploadOk url \<Rightarrow> 200)"

text \<open>
  The handler answers, and may have stored a blob: the second component is the name
  under which \<open>put\<close> stored it. \<open>parsed\<close> is \<open>None\<close> when \<open>form.parse\<close> reports an error.
\<close>

definition handler ::
  "upload_env \<Rightarrow> string \<Rightarrow> (js \<times> upfile formidable) option
     \<Rightarrow> upload_response \<times> string option" where
  "handler env method parsed =
     (if method \<noteq> ''POST'' then (MethodNotAllowed, None)
      else
        (case parsed of
           None \<Rightarrow> (UploadError, None)
         | Some (ftype, ffile) \<Rightarrow>
             (let type = upload_type ftype in
              case upload_file ffile of
                Missing \<Rightarrow> (NoFileProvided, None)
              | Several fs \<Rightarrow> (UploadError, None)
              | One f \<Rightarrow>
                  if \<not> env_readable env (filepath f) then (UploadError, None)
                  else
                    (case env_put env (filename env type f) of
                       None \<Rightarrow> (UploadError, None)
                     | Some url \<Rightarrow>
                         if env_unlink env (filepath f)
                         then (UploadOk url, Some (filename env type f))
                         else (UploadError, Some (filename env type f))))))"

text \<open>
  For comparison: the last dot-separated segment of a name, as the text after its last
  dot (the whole name when it has no dot).
\<close>

definition last_segment :: "string \<Rightarrow> string" where
  "last_segment n = rev (takeWhile (\<lambda>c. c \<noteq> CHR ''.'') (rev n))"

definition expected_extension :: "string option \<Rightarrow> string" where
  "expected_extension original =
     (case original of
        None \<Rightarrow> ''jpg''
      | Some n \<Rightarrow> if last_segment n = [] then ''jpg'' else last_segment n)"

section \<open>Concrete pages, files and endpoints\<close>

text \<open>
  Inputs on which the theorems below are instantiated. The page has its \<open>#file-count\<close>
  line inside the preview region, where \<open>updateUI\<close> itself puts it, and none elsewhere.
\<close>

definition intake_dom :: dom where
  "intake_dom =
     \<lparr>record_btn_label = ''Start Recording'',
      record_btn_classes = {''bg-gray-900'', ''hover:bg-gray-800''},
      recording_status_classes = {''hidden''},
      audio_preview_classes = {''hidden''},
      audio_player_src = None,
      recording_time = Some ''0:00'',
      waveform = Some [],
      file_preview_classes = {''hidden''},
      file_preview_content = None,
      file_count_in_preview = True,
      file_count_elsewhere = False,
      submit_disabled = False,
      submit_text = ''Submit Project Inquiry'',
      form_fields = [(''name'', ''Ada''), (''email'', ''ada@example.org'')],
      location = ''/'',
      alerts = []\<rparr>"

definition png :: "string \<Rightarrow> jsfile" where
  "png n = \<lparr>blob_type = ''image/png'', blob_data = [1, 2, 3], file_name = n @ ''.png''\<rparr>"

definition pdf :: "string \<Rightarrow> jsfile" where
  "pdf n = \<lparr>blob_type = ''application/pdf'', blob_data = [4, 5], file_name = n @ ''.pdf''\<rparr>"

text \<open>A storage that stores every file under a URL made from its name.\<close>

definition store_all :: storage where
  "store_all n r = Stored (''https://blob.example/'' @ file_name (form_file r))"

text \<open>The same storage, except that it answers the request number \<open>k\<close> with a failure.\<close>

definition store_all_but :: "nat \<Rightarrow> storage" where
  "store_all_but k n r = (if n = k then HttpFailure else store_all n r)"

text \<open>Submission endpoints: one that redirects to the confirmation page, one that fails.\<close>

definition redirecting :: submission where
  "redirecting n payload = SubmitResponse True True ''https://intake.example/thank-you.html''"

definition failing :: submission where
  "failing n payload = SubmitResponse False False ''https://intake.example/api/submit''"

text \<open>Surroundings of the storage handler, and two uploads as the parsed form delivers them.\<close>

definition blob_env :: upload_env where
  "blob_env = \<lparr>env_now = 1735430400000, env_random = ''k3j9x'',
     env_readable = (\<lambda>path. True),
     env_put = (\<lambda>name. Some (''https://blob.example/'' @ name)),
     env_unlink = (\<lambda>path. True)\<rparr>"

definition m4a_upload :: upfile where
  "m4a_upload = \<lparr>filepath = ''/tmp/upload_1'', originalFilename = Some ''recording.m4a'',
     mimetype = Some ''audio/mp4''\<rparr>"

definition photo_upload :: upfile where
  "photo_upload = \<lparr>filepath = ''/tmp/upload_2'', originalFilename = Some ''beach.final.PNG'',
     mimetype = Some ''image/png''\<rparr>"

text \<open>
  Pages reached from the loaded page: two images selected; a voice memo recorded and
  stopped; the same memo submitted to a failing endpoint and then recorded anew; a
  recording still in progress.
\<close>

definition two_images :: page where
  "two_images = snd (addFiles [png ''a'', png ''b''] (loaded intake_dom))"

definition page_after :: "event list \<Rightarrow> page" where
  "page_after es =
     (case run store_all failing es (loaded intake_dom) of
        Inl e \<Rightarrow> loaded intake_dom
      | Inr p \<Rightarrow> p)"

definition in_progress :: "event list" where
  "in_progress =
     [RecordClick (Granted (\<lambda>t. t = ''audio/webm'')) 1000 [128, 130],
      DataAvailable [1, 2, 3],
      Frame 1 [127, 129],
      Tick 2 2000,
      DataAvailable [],
      DataAvailable [4, 5]]"

definition one_recording :: "event list" where
  "one_recording =
     in_progress
     @ [RecordClick Denied 3500 [],
        Stopped ''audio/webm;codecs=opus'' ''blob:https://intake.example/1'']"


section \<open>Properties of the file uploader\<close>

lemma png_simps [simp]:
  "blob_type (png n) = ''image/png''" "file_name (png n) = n @ ''.png''"
  by (simp_all add: png_def)

lemma pdf_simps [simp]:
  "blob_type (pdf n) = ''application/pdf''" "file_name (pdf n) = n @ ''.pdf''"
  by (simp_all add: pdf_def)

lemma addFiles_loop_length: "length fs \<le> 10 \<Longrightarrow> length (addFiles_loop fs new) \<le> 10"
  by (induction new arbitrary: fs) auto

lemma addFiles_loop_subset:
  "set (addFiles_loop fs new) \<subseteq> set fs \<union> {f \<in> set new. prefix ''image/'' (blob_type f)}"
proof (induction new arbitrary: fs)
  case Nil
  then show ?case by simp
next
  case (Cons g new)
  then show ?case
    using Cons.IH [of "fs @ [g]"] Cons.IH [of fs] by auto
qed

lemma addFiles_loop_images:
  assumes "\<forall>f \<in> set fs. prefix ''image/'' (blob_type f)"
  shows "\<forall>f \<in> set (addFiles_loop fs new). prefix ''image/'' (blob_type f)"
  using assms addFiles_loop_subset [of fs new] by blast

lemma files_uploader_updateUI [simp]: "uploader (snd (uploader_updateUI p)) = uploader p"
  by (simp add: uploader_updateUI_def Let_def)

lemma files_addFiles [simp]:
  "files (uploader (snd (addFiles new p))) = addFiles_loop (files (uploader p)) new"
  "uploadedUrls (uploader (snd (addFiles new p))) = uploadedUrls (uploader p)"
  by (simp_all add: addFiles_def)

lemma files_removeFile [simp]:
  "files (uploader (snd (removeFile i p))) = splice1 i (files (uploader p))"
  "uploadedUrls (uploader (snd (removeFile i p))) = splice1 i (uploadedUrls (uploader p))"
  by (simp_all add: removeFile_def)

lemma uploader_updateUI_frame [simp]:
  "recorder (snd (uploader_updateUI p)) = recorder p"
  "timers (snd (uploader_updateUI p)) = timers p"
  "upload_log (snd (uploader_updateUI p)) = upload_log p"
  "submit_log (snd (uploader_updateUI p)) = submit_log p"
  "form_fields (dom (snd (uploader_updateUI p))) = form_fields (dom p)"
  "location (dom (snd (uploader_updateUI p))) = location (dom p)"
  "alerts (dom (snd (uploader_updateUI p))) = alerts (dom p)"
  "submit_text (dom (snd (uploader_updateUI p))) = submit_text (dom p)"
  "submit_disabled (dom (snd (uploader_updateUI p))) = submit_disabled (dom p)"
  "recording_time (dom (snd (uploader_updateUI p))) = recording_time (dom p)"
  "waveform (dom (snd (uploader_updateUI p))) = waveform (dom p)"
  by (simp_all add: uploader_updateUI_def Let_def)

lemma addFiles_frame [simp]:
  "recorder (snd (addFiles new p)) = recorder p"
  "timers (snd (addFiles new p)) = timers p"
  "upload_log (snd (addFiles new p)) = upload_log p"
  "submit_log (snd (addFiles new p)) = submit_log p"
  "form_fields (dom (snd (addFiles new p))) = form_fields (dom p)"
  "location (dom (snd (addFiles new p))) = location (dom p)"
  "alerts (dom (snd (addFiles new p))) = alerts (dom p)"
  "submit_text (dom (snd (addFiles new p))) = submit_text (dom p)"
  "recording_time (dom (snd (addFiles new p))) = recording_time (dom p)"
  "waveform (dom (snd (addFiles new p))) = waveform (dom p)"
  by (simp_all add: addFiles_def)

lemma removeFile_frame [simp]:
  "recorder (snd (removeFile i p)) = recorder p"
  "timers (snd (removeFile i p)) = timers p"
  "upload_log (snd (removeFile i p)) = upload_log p"
  "submit_log (snd (removeFile i p)) = submit_log p"
  "form_fields (dom (snd (removeFile i p))) = form_fields (dom p)"
  "recording_time (dom (snd (removeFile i p))) = recording_time (dom p)"
  "waveform (dom (snd (removeFile i p))) = waveform (dom p)"
  by (simp_all add: removeFile_def)

lemma selection_ok_addFiles:
  assumes "selection_ok p"
  shows "selection_ok (snd (addFiles new p))"
proof -
  from assms have len: "length (files (uploader p)) \<le> 10"
    and img: "\<forall>f \<in> set (files (uploader p)). prefix ''image/'' (blob_type f)"
    by (simp_all add: selection_ok_def)
  show ?thesis
    unfolding selection_ok_def files_addFiles
    using addFiles_loop_length [OF len] addFiles_loop_images [OF img] by blast
qed

lemma selection_ok_loaded: "selection_ok (loaded d)"
  by (simp add: selection_ok_def loaded_def new_FileUploader_def)

text \<open>
  The two bounds of the selection hold after any sequence of \<open>addFiles\<close> calls on the
  loaded page, whether or not a refresh threw on the way: the files are pushed before
  the refresh.
\<close>

lemma selection_ok_foldl:
  "selection_ok p \<Longrightarrow> selection_ok (foldl (\<lambda>q new. snd (addFiles new q)) p batches)"
  by (induction batches arbitrary: p) (simp_all add: selection_ok_addFiles)

lemma selection_bounded_after_addFiles:
  "length (files (uploader (foldl (\<lambda>q new. snd (addFiles new q)) (loaded d) batches))) \<le> 10
   \<and> (\<forall>f \<in> set (files (uploader (foldl (\<lambda>q new. snd (addFiles new q)) (loaded d) batches))).
        prefix ''image/'' (blob_type f))"
  using selection_ok_foldl [OF selection_ok_loaded, of d batches]
  by (simp add: selection_ok_def)

lemma loaded_intake [simp]:
  "files (uploader (loaded d)) = []"
  "uploadedUrls (uploader (loaded d)) = []"
  "upload_log (loaded d) = []"
  "submit_log (loaded d) = []"
  "dom (loaded d) = d"
  "file_count_in_preview intake_dom"
  "\<not> file_count_elsewhere intake_dom"
  by (simp_all add: loaded_def new_FileUploader_def intake_dom_def)

text \<open>
  Claim C2, at an input where the code departs from it. The page has its count line
  inside the preview region. \<open>addFiles([b.pdf])\<close> drops the file and returns; its refresh
  renders the empty selection and so empties the preview, count line included. Then
  \<open>addFiles([a.png])\<close> admits the image and throws a \<open>TypeError\<close> from the refresh, and
  \<open>addFiles([c.pdf])\<close> drops its only candidate and throws the same error; the selection
  is the one image throughout.
\<close>

theorem addFiles_after_empty_render:
  "fst (addFiles [pdf ''b''] (loaded intake_dom)) = None
   \<and> files (uploader (snd (addFiles [pdf ''b''] (loaded intake_dom)))) = []
   \<and> fst (addFiles [png ''a''] (snd (addFiles [pdf ''b''] (loaded intake_dom)))) = Some TypeError
   \<and> files (uploader (snd (addFiles [png ''a''] (snd (addFiles [pdf ''b''] (loaded intake_dom))))))
       = [png ''a'']
   \<and> fst (addFiles [pdf ''c'']
         (snd (addFiles [png ''a''] (snd (addFiles [pdf ''b''] (loaded intake_dom))))))
       = Some TypeError
   \<and> files (uploader (snd (addFiles [pdf ''c'']
         (snd (addFiles [png ''a''] (snd (addFiles [pdf ''b''] (loaded intake_dom))))))))
       = [png ''a'']"
  by (simp add: addFiles_def uploader_updateUI_def Let_def)

lemma stored_urls_simps [simp]:
  "stored_urls [] = []"
  "stored_urls (r # rs) = (case r of Stored u \<Rightarrow> [u] | _ \<Rightarrow> []) @ stored_urls rs"
  "stored_urls (rs @ rs') = stored_urls rs @ stored_urls rs'"
  by (simp_all add: stored_urls_def)

lemma uploadAll_loop_eq:
  "uploadAll_loop st fs (urls, log) =
     (urls @ stored_urls (map (\<lambda>j. st (length log + j) (image_request (fs ! j))) [0..<length fs]),
      log @ map image_request fs)"
proof (induction fs arbitrary: urls log)
  case Nil
  then show ?case by simp
next
  case (Cons f fs)
  have upt: "[0..<length (f # fs)] = 0 # map Suc [0..<length fs]"
    by (simp add: upt_conv_Cons map_Suc_upt del: upt_Suc)
  show ?case
    unfolding upt
    by (simp add: Cons.IH Let_def try_image_def o_def split: upload_reply.split)
qed

lemma stored_urls_all:
  "\<forall>r \<in> set rs. succeeded r \<Longrightarrow> stored_urls rs = map url_of rs"
  by (induction rs) (auto simp: succeeded_def url_of_def split: upload_reply.splits)

lemma stored_urls_failed: "\<not> succeeded r \<Longrightarrow> stored_urls [r] = []"
  by (auto simp: succeeded_def split: upload_reply.splits)

lemma stored_urls_one_failure:
  assumes i: "i < length rs"
    and one: "\<forall>j < length rs. succeeded (rs ! j) \<longleftrightarrow> j \<noteq> i"
  shows "stored_urls rs = map url_of (take i rs @ drop (Suc i) rs)"
proof -
  have split: "rs = take i rs @ [rs ! i] @ drop (Suc i) rs"
    using i by (simp add: id_take_nth_drop)
  have before: "\<forall>r \<in> set (take i rs). succeeded r"
    using i one by (auto simp: in_set_conv_nth)
  have after: "\<forall>r \<in> set (drop (Suc i) rs). succeeded r"
    using i one by (auto simp: in_set_conv_nth)
  have here: "\<not> succeeded (rs ! i)"
    using i one by simp
  have "stored_urls rs =
      stored_urls (take i rs) @ stored_urls [rs ! i] @ stored_urls (drop (Suc i) rs)"
    by (subst split) (simp only: stored_urls_simps(3))
  then show ?thesis
    by (simp only: stored_urls_all [OF before] stored_urls_all [OF after]
        stored_urls_failed [OF here] map_append append_Nil)
qed

lemma uploadAll_eq:
  "uploadAll st p =
     (stored_urls (map (reply_to st p) [0..<length (files (uploader p))]),
      p\<lparr>uploader := (uploader p)
           \<lparr>uploadedUrls := stored_urls (map (reply_to st p) [0..<length (files (uploader p))])\<rparr>,
        upload_log := upload_log p @ map image_request (files (uploader p))\<rparr>)"
  by (simp add: uploadAll_def uploadAll_loop_eq reply_to_def [abs_def])

text \<open>
  Claim C1. When \<open>uploadAll\<close> runs on \<open>N\<close> selected files and the storage endpoint fails
  for exactly one of them, the file at position \<open>i\<close>, the returned sequence has \<open>N - 1\<close>
  URLs: those returned for the other files, in the order of the files. The failed file
  contributes nothing, every file is still requested (one request each, in order), the
  selection is unchanged, and the result is a plain value: what is thrown inside the
  loop is caught there.
\<close>

theorem uploadAll_one_failure:
  assumes i: "i < length (files (uploader p))"
    and one: "\<forall>j < length (files (uploader p)). succeeded (reply_to st p j) \<longleftrightarrow> j \<noteq> i"
  shows "length (fst (uploadAll st p)) = length (files (uploader p)) - 1
       \<and> fst (uploadAll st p) =
           map (\<lambda>j. url_of (reply_to st p j)) ([0..<i] @ [Suc i..<length (files (uploader p))])
       \<and> uploadedUrls (uploader (snd (uploadAll st p))) = fst (uploadAll st p)
       \<and> files (uploader (snd (uploadAll st p))) = files (uploader p)
       \<and> upload_log (snd (uploadAll st p)) =
           upload_log p @ map image_request (files (uploader p))"
proof -
  let ?fs = "files (uploader p)"
  let ?rs = "map (reply_to st p) [0..<length ?fs]"
  have res: "uploadAll st p =
      (stored_urls ?rs,
       p\<lparr>uploader := (uploader p)\<lparr>uploadedUrls := stored_urls ?rs\<rparr>,
         upload_log := upload_log p @ map image_request ?fs\<rparr>)"
    by (rule uploadAll_eq)
  have one': "\<forall>j < length ?rs. succeeded (?rs ! j) \<longleftrightarrow> j \<noteq> i"
    using one by simp
  have urls: "stored_urls ?rs = map url_of (take i ?rs @ drop (Suc i) ?rs)"
    using i one' by (intro stored_urls_one_failure) simp_all
  have idx: "take i ?rs @ drop (Suc i) ?rs =
      map (reply_to st p) ([0..<i] @ [Suc i..<length ?fs])"
    using i by (simp add: take_map drop_map del: upt_Suc)
  have eq: "stored_urls ?rs = map (\<lambda>j. url_of (reply_to st p j)) ([0..<i] @ [Suc i..<length ?fs])"
    unfolding urls idx by (simp add: o_def)
  have len: "length (stored_urls ?rs) = length ?fs - 1"
    unfolding eq using i by simp
  show ?thesis
    unfolding res using eq len by simp
qed


theorem uploadAll_one_failure_witness:
  "fst (uploadAll (store_all_but 1)
         (snd (addFiles [png ''a'', png ''b'', png ''c''] (loaded intake_dom))))
     = [''https://blob.example/a.png'', ''https://blob.example/c.png'']
   \<and> length (fst (uploadAll (store_all_but 1)
         (snd (addFiles [png ''a'', png ''b'', png ''c''] (loaded intake_dom))))) = 2
   \<and> map form_file (upload_log (snd (uploadAll (store_all_but 1)
         (snd (addFiles [png ''a'', png ''b'', png ''c''] (loaded intake_dom))))))
     = [png ''a'', png ''b'', png ''c'']"
proof -
  let ?p = "snd (addFiles [png ''a'', png ''b'', png ''c''] (loaded intake_dom))"
  have fs: "files (uploader ?p) = [png ''a'', png ''b'', png ''c'']"
    by simp
  have log: "upload_log ?p = []"
    by simp
  have i: "(1::nat) < length (files (uploader ?p))"
    unfolding fs by simp
  have one: "\<forall>j < length (files (uploader ?p)).
      succeeded (reply_to (store_all_but 1) ?p j) \<longleftrightarrow> j \<noteq> 1"
    unfolding reply_to_def fs log
    by (simp add: store_all_but_def store_all_def succeeded_def)
  have upt: "[0..<1] @ [Suc 1..<3] = [0, 2::nat]"
    by (simp add: upt_conv_Cons)
  have "length [png ''a'', png ''b'', png ''c''] = 3"
    by simp
  with uploadAll_one_failure [OF i one] show ?thesis
    unfolding reply_to_def fs log
    by (simp add: upt store_all_but_def store_all_def url_of_def image_request_def)
qed

text \<open>
  What \<open>removeFile\<close> does to the selection, in every state and whether or not its refresh
  throws: both lists are spliced at the index. An index inside the list removes the
  entry there and keeps the order of the rest; an index at or beyond the end removes
  nothing. An \<open>uploadAll\<close> that follows requests the remaining files, in their order.
\<close>

lemma splice1_in_range:
  "0 \<le> i \<Longrightarrow> nat i < length xs \<Longrightarrow> splice1 i xs = take (nat i) xs @ drop (Suc (nat i)) xs"
  by (simp add: splice1_def Let_def min_def)

lemma splice1_beyond: "int (length xs) \<le> i \<Longrightarrow> splice1 i xs = xs"
  by (simp add: splice1_def Let_def min_def)

lemma removeFile_then_uploadAll:
  "fst (uploadAll st (snd (removeFile i p))) =
     stored_urls (map (reply_to st (snd (removeFile i p)))
       [0..<length (splice1 i (files (uploader p)))])
   \<and> upload_log (snd (uploadAll st (snd (removeFile i p)))) =
       upload_log p @ map image_request (splice1 i (files (uploader p)))"
  by (simp add: uploadAll_eq)


section \<open>Properties of the submission endpoint\<close>

lemma replace_all_append [simp]:
  "replace_all c s (xs @ ys) = replace_all c s xs @ replace_all c s ys"
  by (simp add: replace_all_def)

lemma replace_all_Nil [simp]: "replace_all c s [] = []"
  by (simp add: replace_all_def)

lemma replace_all_Cons:
  "replace_all c s (x # xs) = (if x = c then s else [x]) @ replace_all c s xs"
  by (simp add: replace_all_def)

lemma escape_chain:
  \<open>replace_all CHR ''\<newline>'' ''<br>''
     (replace_all CHR 0x27 ''&#039;''
       (replace_all CHR ''"'' ''&quot;''
         (replace_all CHR ''>'' ''&gt;''
           (replace_all CHR ''<'' ''&lt;''
             (replace_all CHR ''&'' ''&amp;'' t))))) = concat (map escape_char t)\<close>
proof (induction t)
  case Nil
  then show ?case by simp
next
  case (Cons x t)
  show ?case
    unfolding replace_all_Cons [of _ _ x t] replace_all_append list.map concat.simps Cons.IH [symmetric]
    by (simp add: escape_char_def replace_all_Cons)
qed

lemma escape_char_nonempty: "escape_char c \<noteq> []"
  by (simp add: escape_char_def)

lemma escapeHtml_Some: "escapeHtml (Some t) = concat (map escape_char t)"
  by (simp add: escapeHtml_def escape_chain)

lemma escapeHtml_empty_iff: "escapeHtml v = [] \<longleftrightarrow> \<not> truthy v"
proof (cases v)
  case None
  then show ?thesis by (simp add: escapeHtml_def truthy_def)
next
  case (Some t)
  then show ?thesis
    by (cases t) (simp_all add: escapeHtml_Some truthy_def escape_char_nonempty)
qed

lemma foldl_append_concat:
  "foldl (\<lambda>html x. html @ f x) html0 xs = html0 @ concat (map f xs)"
  by (induction xs arbitrary: html0) simp_all

lemma field_row_escaped: "field_row label v = escaped_row label (escapeHtml v)"
  by (simp add: field_row_def escaped_row_def escapeHtml_empty_iff)

lemma section_html_escaped:
  "section_html data sec = escaped_section (\<lambda>k. escapeHtml (data k)) sec"
proof -
  have "(\<lambda>html (label, key). html @ field_row label (data key)) =
        (\<lambda>html x. html @ (case x of (label, key) \<Rightarrow> field_row label (data key)))"
    by (simp add: fun_eq_iff split: prod.split)
  then show ?thesis
    by (simp add: section_html_def escaped_section_def foldl_append_concat field_row_escaped)
qed

lemma split_nonempty: "split c s \<noteq> []"
  by (induction s) (auto split: list.split)

lemma formatEmailBody_eq:
  "formatEmailBody data =
     escaped_email (\<lambda>k. escapeHtml (data k)) (map (\<lambda>u. escapeHtml (Some u)) (image_urls data))"
proof -
  have sections: "foldl (\<lambda>html sec. html @ section_html data sec) html_open sections =
      html_open @ concat (map (escaped_section (\<lambda>k. escapeHtml (data k))) sections)"
    by (simp add: foldl_append_concat section_html_escaped)
  have audio: "truthy (data ''audio-url'') \<longleftrightarrow> escapeHtml (data ''audio-url'') \<noteq> []"
    by (simp add: escapeHtml_empty_iff)
  show ?thesis
  proof (cases "data ''image-urls''")
    case None
    then show ?thesis
      by (simp add: formatEmailBody_def escaped_email_def image_urls_def sections audio Let_def)
  next
    case (Some s)
    show ?thesis
    proof (cases "s = []")
      case True
      with Some show ?thesis
        by (simp add: formatEmailBody_def escaped_email_def image_urls_def sections audio Let_def)
    next
      case False
      with Some show ?thesis
        by (simp add: formatEmailBody_def escaped_email_def image_urls_def sections audio Let_def
            foldl_append_concat section_html_escaped image_html_def split_nonempty o_def)
    qed
  qed
qed


text \<open>
  Claim C10. The email that \<open>formatEmailBody\<close> builds from \<open>data\<close> is the one assembled
  from escaped values alone: every field value, the audio URL and each image URL enter
  the HTML only as \<open>escapeHtml\<close> of the value. \<open>escapeHtml\<close> maps \<open>null\<close>, \<open>undefined\<close>
  and the empty string to the empty string, and otherwise replaces each \<open>&\<close>, \<open><\<close>, \<open>>\<close>,
  double quote and single quote by its entity, each newline by \<open><br>\<close>, and keeps
  every other character.
\<close>

theorem formatEmailBody_escapes_values:
  "formatEmailBody data =
     escaped_email (\<lambda>k. escapeHtml (data k)) (map (\<lambda>u. escapeHtml (Some u)) (image_urls data))
   \<and> escapeHtml None = []
   \<and> escapeHtml (Some []) = []
   \<and> escapeHtml (Some text) = concat (map escape_char text)"
  by (simp add: formatEmailBody_eq escapeHtml_Some) (simp add: escapeHtml_def)

section \<open>Properties of the storage endpoint\<close>

lemma split_no_separator: "c \<notin> set s \<Longrightarrow> split c s = [s]"
  by (induction s) auto

lemma split_separator: "c \<in> set s \<Longrightarrow> tl (split c s) \<noteq> []"
  by (induction s) (auto simp: split_nonempty split_no_separator split: list.split)

lemma last_split_Cons:
  "last (split c (x # s)) =
     (if c \<in> set s then last (split c s) else if x = c then s else x # s)"
proof (cases "c \<in> set s")
  case True
  from split_separator [OF True] obtain w v ws where "split c s = w # v # ws"
    by (cases "split c s"; cases "tl (split c s)") auto
  with True show ?thesis by simp
next
  case False
  then show ?thesis by (simp add: split_no_separator)
qed

lemma takeWhile_before_separator:
  "c \<notin> set xs \<Longrightarrow> takeWhile (\<lambda>y. y \<noteq> c) (xs @ c # ys) = xs"
  by (induction xs) auto

lemma takeWhile_without_separator:
  "c \<notin> set xs \<Longrightarrow> takeWhile (\<lambda>y. y \<noteq> c) (xs @ [x]) = xs @ (if x = c then [] else [x])"
  by (induction xs) auto

lemma takeWhile_with_separator:
  "c \<in> set xs \<Longrightarrow> takeWhile (\<lambda>y. y \<noteq> c) (xs @ ys) = takeWhile (\<lambda>y. y \<noteq> c) xs"
  by (induction xs) auto

lemma last_segment_Cons:
  "last_segment (x # s) =
     (if CHR ''.'' \<in> set s then last_segment s else if x = CHR ''.'' then s else x # s)"
proof (cases "CHR ''.'' \<in> set s")
  case True
  then have "CHR ''.'' \<in> set (rev s)" by simp
  from takeWhile_with_separator [OF this] True show ?thesis
    by (simp add: last_segment_def)
next
  case False
  then have "CHR ''.'' \<notin> set (rev s)" by simp
  from takeWhile_without_separator [OF this] False show ?thesis
    by (simp add: last_segment_def)
qed

lemma last_segment_Nil [simp]: "last_segment [] = []"
  by (simp add: last_segment_def)

lemma last_split_dot: "last (split CHR ''.'' n) = last_segment n"
proof (induction n)
  case Nil
  then show ?case by simp
next
  case (Cons x n)
  then show ?case
    by (simp only: last_split_Cons last_segment_Cons)
qed

lemma last_segment_no_dot: "CHR ''.'' \<notin> set (last_segment n)"
  by (auto simp: last_segment_def dest: set_takeWhileD)

lemma last_segment_suffix:
  assumes "CHR ''.'' \<notin> set e"
  shows "last_segment (stem @ ''.'' @ e) = e"
proof -
  from assms have "CHR ''.'' \<notin> set (rev e)" by simp
  from takeWhile_before_separator [OF this] show ?thesis
    by (simp add: last_segment_def)
qed

lemma extension_audio: "extension (Str ''audio'') f = ''webm''"
  by (simp add: extension_def)

lemma extension_other:
  "type \<noteq> Str ''audio'' \<Longrightarrow> extension type f = expected_extension (originalFilename f)"
  by (simp add: extension_def expected_extension_def pop_def split_nonempty last_split_dot
      split: option.split)

lemma extension_no_dot: "CHR ''.'' \<notin> set (extension type f)"
proof (cases "type = Str ''audio''")
  case True
  then show ?thesis by (simp add: extension_audio)
next
  case False
  then show ?thesis
    using last_segment_no_dot
    by (auto simp: extension_other expected_extension_def split: option.split)
qed

lemma last_segment_filename: "last_segment (filename env type f) = extension type f"
proof -
  have "filename env type f =
      (''intake/'' @ template type @ ''/'' @ decimal (env_now env) @ ''-'' @ env_random env)
      @ ''.'' @ extension type f"
    by (simp add: filename_def)
  then show ?thesis
    by (simp only: last_segment_suffix [OF extension_no_dot])
qed

lemma handler_stored:
  assumes "handler env method parsed = (resp, Some name)"
  shows "\<exists>ftype ffile f. parsed = Some (ftype, ffile) \<and> upload_file ffile = One f
           \<and> name = filename env (upload_type ftype) f"
  using assms
  by (auto simp: handler_def Let_def split: if_splits option.splits formidable.splits prod.splits)

text \<open>
  Claim C9. Whenever the storage handler has stored a blob, the part of the stored name
  after its last dot is \<open>webm\<close> if the handler's \<open>type\<close> is \<open>audio\<close>, whatever the
  uploaded file is called and whatever its MIME type; for every other \<open>type\<close> it is
  the last dot-separated segment of the original file name, and \<open>jpg\<close> when there is no
  original name or that segment is empty.
\<close>

theorem stored_extension:
  assumes "handler env method parsed = (resp, Some name)"
  shows "\<exists>ftype ffile f. parsed = Some (ftype, ffile) \<and> upload_file ffile = One f
     \<and> (upload_type ftype = Str ''audio'' \<longrightarrow> last_segment name = ''webm'')
     \<and> (upload_type ftype \<noteq> Str ''audio'' \<longrightarrow>
          last_segment name = expected_extension (originalFilename f))"
proof -
  from handler_stored [OF assms] obtain ftype ffile f where
    p: "parsed = Some (ftype, ffile)" and f: "upload_file ffile = One f"
    and n: "name = filename env (upload_type ftype) f"
    by blast
  have "upload_type ftype = Str ''audio'' \<longrightarrow> last_segment name = ''webm''"
    by (simp add: n last_segment_filename extension_audio)
  moreover have "upload_type ftype \<noteq> Str ''audio'' \<longrightarrow>
      last_segment name = expected_extension (originalFilename f)"
    by (simp add: n last_segment_filename extension_other)
  ultimately show ?thesis
    using p f by blast
qed

lemma decimal_1735430400000: "decimal 1735430400000 = ''1735430400000''"
  by (simp add: decimal.simps digit_def)



lemma audio_upload_stored:
  "handler blob_env ''POST'' (Some (Arr [''audio''], Several [m4a_upload])) =
     (UploadOk ''https://blob.example/intake/audio/1735430400000-k3j9x.webm'',
      Some ''intake/audio/1735430400000-k3j9x.webm'')"
  by (simp add: handler_def upload_type_def upload_file_def first_of_def js_or_def js_truthy_def
      blob_env_def m4a_upload_def filename_def template_def extension_def
      decimal_1735430400000)

lemma image_upload_stored:
  "handler blob_env ''POST'' (Some (Arr [''image''], Several [photo_upload])) =
     (UploadOk ''https://blob.example/intake/image/1735430400000-k3j9x.PNG'',
      Some ''intake/image/1735430400000-k3j9x.PNG'')"
  by (simp add: handler_def upload_type_def upload_file_def first_of_def js_or_def js_truthy_def
      blob_env_def photo_upload_def filename_def template_def extension_def
      decimal_1735430400000 pop_def)

theorem stored_extension_witness:
  "handler blob_env ''POST'' (Some (Arr [''audio''], Several [m4a_upload])) =
     (UploadOk ''https://blob.example/intake/audio/1735430400000-k3j9x.webm'',
      Some ''intake/audio/1735430400000-k3j9x.webm'')
   \<and> upload_type (Arr [''audio'']) = Str ''audio''
   \<and> last_segment ''intake/audio/1735430400000-k3j9x.webm'' = ''webm''
   \<and> upload_type (Arr [''image'']) \<noteq> Str ''audio''
   \<and> last_segment ''intake/image/1735430400000-k3j9x.PNG'' = ''PNG''"
proof -
  have audio: "upload_type (Arr [''audio'']) = Str ''audio''"
    by (simp add: upload_type_def first_of_def js_or_def js_truthy_def)
  have image: "upload_type (Arr [''image'']) = Str ''image''"
    by (simp add: upload_type_def first_of_def js_or_def js_truthy_def)
  have expected: "expected_extension (Some ''beach.final.PNG'') = ''PNG''"
    by (simp add: expected_extension_def last_segment_def)
  from stored_extension [OF audio_upload_stored] audio
  have a: "last_segment ''intake/audio/1735430400000-k3j9x.webm'' = ''webm''"
    by auto
  from stored_extension [OF image_upload_stored] image expected
  have b: "last_segment ''intake/image/1735430400000-k3j9x.PNG'' = ''PNG''"
    by (auto simp: upload_file_def photo_upload_def)
  show ?thesis
    using audio_upload_stored audio image a b by simp
qed

section \<open>Properties of the recorder and of the sequencer\<close>

lemma decimal_literal [simp]:
  "decimal 0 = ''0''"
  "decimal (Suc 0) = ''1''"
  "decimal 1 = ''1''"
  "decimal (numeral k) =
     (if (numeral k :: nat) < 10 then [digit (numeral k)]
      else decimal (numeral k div 10) @ [digit (numeral k mod 10)])"
  by (simp_all add: decimal.simps [of 0] decimal.simps [of 1] decimal.simps [of "Suc 0"]
      decimal.simps [of "numeral k"] digit_def)

lemmas page_defs =
  run.simps step_def record_click_def init_def mimeTypes_def start_def stop_def
  recorder_updateUI_def startWaveform_def draw_def requestAnimationFrame_def startTimer_def
  setInterval_def stopWaveform_def stopTimer_def cancelAnimationFrame_def clearInterval_def
  ondataavailable_def onstop_def fire_frame_def fire_interval_def timer_tick_def
  time_label_def toString_def digit_def padStart2_def truthy_def loaded_def
  new_VoiceRecorder_def new_FileUploader_def intake_dom_def Let_def signed_modulo_int_def
  new_Blob_type_def ascii_lower_def

lemma one_recording_run:
  "\<exists>p. run st sub one_recording (loaded intake_dom) = Inr p
     \<and> audioBlob (recorder p) =
         Some \<lparr>blob_type = ''audio/webm;codecs=opus'', blob_data = [1, 2, 3, 4, 5]\<rparr>
     \<and> uploadedUrl (recorder p) = None
     \<and> recording_time (dom p) = Some ''0:01''
     \<and> upload_log p = []"
  unfolding one_recording_def in_progress_def
  by (simp add: page_defs)

lemma one_recording_page:
  "audioBlob (recorder (page_after one_recording)) =
     Some \<lparr>blob_type = ''audio/webm;codecs=opus'', blob_data = [1, 2, 3, 4, 5]\<rparr>"
  "recording_time (dom (page_after one_recording)) = Some ''0:01''"
  "upload_log (page_after one_recording) = []"
  using one_recording_run [of store_all failing]
  by (auto simp: page_after_def)

lemma upload_no_artifact: "audioBlob (recorder p) = None \<Longrightarrow> upload st p = (None, p)"
  by (simp add: upload_def)

lemma upload_times_no_artifact:
  "audioBlob (recorder p) = None \<Longrightarrow> upload_times st n p = (replicate n None, p)"
  by (induction n) (simp_all add: upload_no_artifact)

text \<open>
  Claim C7. On a page that has the elapsed-time label, after \<open>clear()\<close> the label reads
  \<open>0:00\<close> and there is no audio artifact; any number of \<open>upload()\<close> calls that follow
  return \<open>null\<close> each and leave the page as it is, the log of requests included: no
  request is sent.
\<close>

theorem clear_then_upload:
  assumes "recording_time (dom p) = Some label"
  shows "recording_time (dom (clear p)) = Some ''0:00''
       \<and> audioBlob (recorder (clear p)) = None
       \<and> upload_times st n (clear p) = (replicate n None, clear p)
       \<and> upload_log (clear p) = upload_log p"
proof -
  have blob: "audioBlob (recorder (clear p)) = None"
    by (simp add: clear_def)
  have label: "recording_time (dom (clear p)) = Some ''0:00''"
    using assms by (simp add: clear_def)
  have log: "upload_log (clear p) = upload_log p"
    by (simp add: clear_def)
  show ?thesis
    using blob label log upload_times_no_artifact [OF blob] by simp
qed

lemma upload_frame [simp]:
  "dom (snd (upload st p)) = dom p"
  "submit_log (snd (upload st p)) = submit_log p"
  "uploader (snd (upload st p)) = uploader p"
  "timers (snd (upload st p)) = timers p"
  by (simp_all add: upload_def Let_def split: option.split sum.split)

lemma uploadAll_frame [simp]:
  "dom (snd (uploadAll st p)) = dom p"
  "submit_log (snd (uploadAll st p)) = submit_log p"
  "recorder (snd (uploadAll st p)) = recorder p"
  "timers (snd (uploadAll st p)) = timers p"
  by (simp_all add: uploadAll_eq)

lemma upload_media_dom:
  "dom (snd (snd (upload_media st p))) =
     (dom p)\<lparr>submit_disabled := True, submit_text := ''Sending...''\<rparr>"
  by (simp add: upload_media_def Let_def split_beta)

lemma upload_media_submit_log: "submit_log (snd (snd (upload_media st p))) = submit_log p"
  by (simp add: upload_media_def Let_def split_beta)

lemma payload_of_eq:
  "payload_of st p =
     formData (form_fields (dom p)) (fst (upload_media st p)) (fst (snd (upload_media st p)))"
  by (simp add: payload_of_def split_beta upload_media_dom)

lemma try_submit_failed: "post_failed r \<Longrightarrow> \<exists>e. try_submit r = Inl e"
  by (cases r) (auto simp: post_failed_def try_submit_def)

text \<open>
  Claim C5. On the intake page, whose submit button is labelled
  \<open>Submit Project Inquiry\<close>: when the final POST is rejected or answered with a response
  that is neither redirected nor \<open>ok\<close>, the handler raises one alert, enables the submit
  button again, gives it back the label it had before the attempt, leaves the fields of
  the form as they were, and does not navigate. The POST itself was sent once.
\<close>

theorem submit_failure_recovers:
  assumes "post_failed (sub (length (submit_log p)) (payload_of st p))"
    and "submit_text (dom p) = ''Submit Project Inquiry''"
  shows "alerts (dom (submit_handler st sub p)) =
           alerts (dom p) @ [''Something went wrong. Please try again.'']
       \<and> \<not> submit_disabled (dom (submit_handler st sub p))
       \<and> submit_text (dom (submit_handler st sub p)) = submit_text (dom p)
       \<and> form_fields (dom (submit_handler st sub p)) = form_fields (dom p)
       \<and> location (dom (submit_handler st sub p)) = location (dom p)
       \<and> submit_log (submit_handler st sub p) = submit_log p @ [payload_of st p]"
proof -
  from try_submit_failed [OF assms(1)] obtain e where
    e: "try_submit (sub (length (submit_log p)) (payload_of st p)) = Inl e" ..
  let ?p4 = "snd (snd (upload_media st p))"
  have h: "submit_handler st sub p =
      ?p4\<lparr>submit_log := submit_log p @ [payload_of st p]\<rparr>
         \<lparr>dom := (dom ?p4)
            \<lparr>alerts := alerts (dom ?p4) @ [''Something went wrong. Please try again.''],
             submit_disabled := False,
             submit_text := ''Submit Project Inquiry''\<rparr>\<rparr>"
    using e
    by (simp add: submit_handler_def Let_def split_beta payload_of_eq upload_media_dom
        upload_media_submit_log)
  show ?thesis
    unfolding h by (simp add: upload_media_dom assms(2))
qed

theorem clear_then_upload_witness:
  "recording_time (dom (page_after one_recording)) = Some ''0:01''
   \<and> audioBlob (recorder (page_after one_recording)) =
       Some \<lparr>blob_type = ''audio/webm;codecs=opus'', blob_data = [1, 2, 3, 4, 5]\<rparr>
   \<and> recording_time (dom (clear (page_after one_recording))) = Some ''0:00''
   \<and> audioBlob (recorder (clear (page_after one_recording))) = None
   \<and> upload_times store_all 3 (clear (page_after one_recording)) =
       ([None, None, None], clear (page_after one_recording))
   \<and> upload_log (clear (page_after one_recording)) = []"
  using clear_then_upload [OF one_recording_page(2), of store_all 3] one_recording_page
  by (simp add: numeral_3_eq_3)

lemma two_images_page:
  "files (uploader two_images) = [png ''a'', png ''b'']"
  "audioBlob (recorder two_images) = None"
  "upload_log two_images = []"
  "submit_log two_images = []"
  "alerts (dom two_images) = []"
  "form_fields (dom two_images) = [(''name'', ''Ada''), (''email'', ''ada@example.org'')]"
  "location (dom two_images) = ''/''"
  "submit_text (dom two_images) = ''Submit Project Inquiry''"
  by (simp_all add: two_images_def loaded_def new_FileUploader_def new_VoiceRecorder_def
      intake_dom_def)

theorem submit_failure_recovers_witness:
  "post_failed (failing 0 (payload_of store_all two_images))
   \<and> submit_text (dom two_images) = ''Submit Project Inquiry''
   \<and> alerts (dom (submit_handler store_all failing two_images)) =
       [''Something went wrong. Please try again.'']
   \<and> \<not> submit_disabled (dom (submit_handler store_all failing two_images))
   \<and> submit_text (dom (submit_handler store_all failing two_images)) = ''Submit Project Inquiry''
   \<and> form_fields (dom (submit_handler store_all failing two_images)) =
       [(''name'', ''Ada''), (''email'', ''ada@example.org'')]
   \<and> location (dom (submit_handler store_all failing two_images)) = ''/''"
proof -
  have failed: "post_failed (failing (length (submit_log two_images))
      (payload_of store_all two_images))"
    by (simp add: failing_def post_failed_def)
  show ?thesis
    using submit_failure_recovers [of failing two_images store_all, OF failed two_images_page(8)]
      failed
    by (simp add: two_images_page)
qed

lemma reply_to_dom [simp]: "reply_to st (p\<lparr>dom := d\<rparr>) = reply_to st p"
  by (simp add: reply_to_def [abs_def])

lemma upload_media_no_audio:
  assumes "audioBlob (recorder p) = None" and "files (uploader p) \<noteq> []"
  shows "fst (upload_media st p) = None"
    and "fst (snd (upload_media st p)) =
           stored_urls (map (reply_to st p) [0..<length (files (uploader p))])"
    and "upload_log (snd (snd (upload_media st p))) =
           upload_log p @ map image_request (files (uploader p))"
  using assms by (simp_all add: upload_media_def Let_def split_beta uploadAll_eq)

lemma submit_handler_upload_log:
  "upload_log (submit_handler st sub p) = upload_log (snd (snd (upload_media st p)))"
  by (simp add: submit_handler_def Let_def split_beta split: sum.split)

lemma submit_handler_submit_log:
  "submit_log (submit_handler st sub p) = submit_log p @ [payload_of st p]"
  by (simp add: submit_handler_def Let_def split_beta payload_of_eq upload_media_dom
      upload_media_submit_log split: sum.split)

text \<open>
  Claim C6, as the code has it: with no audio artifact and exactly two images selected,
  whose uploads both succeed with the URLs \<open>u1\<close> and \<open>u2\<close>, the handler sends exactly
  two upload requests, one per image and none of type \<open>audio\<close>, and then exactly one
  POST, whose payload is the fields of the form followed by \<open>image-urls\<close> with the
  value \<open>u1,u2\<close>; no \<open>audio-url\<close> entry is added.
\<close>

theorem two_images_no_audio:
  assumes "audioBlob (recorder p) = None"
    and "files (uploader p) = [f1, f2]"
    and "st (length (upload_log p)) (image_request f1) = Stored u1"
    and "st (Suc (length (upload_log p))) (image_request f2) = Stored u2"
  shows "upload_log (submit_handler st sub p) =
           upload_log p @ [image_request f1, image_request f2]
       \<and> requests_of_type ''audio'' [image_request f1, image_request f2] = []
       \<and> submit_log (submit_handler st sub p) =
           submit_log p @ [form_fields (dom p) @ [(''image-urls'', u1 @ '','' @ u2)]]
       \<and> field_values ''audio-url'' (payload_of st p) =
           field_values ''audio-url'' (form_fields (dom p))"
proof -
  have nonempty: "files (uploader p) \<noteq> []"
    using assms(2) by simp
  have upt: "[0..<length (files (uploader p))] = [0, 1]"
    using assms(2) by (simp add: upt_conv_Cons)
  have urls: "stored_urls (map (reply_to st p) [0..<length (files (uploader p))]) = [u1, u2]"
    unfolding upt using assms by (simp add: reply_to_def)
  have payload: "payload_of st p = form_fields (dom p) @ [(''image-urls'', u1 @ '','' @ u2)]"
    by (simp add: payload_of_eq upload_media_no_audio [OF assms(1) nonempty] urls formData_def)
  have log: "upload_log (submit_handler st sub p) =
      upload_log p @ [image_request f1, image_request f2]"
    by (simp add: submit_handler_upload_log upload_media_no_audio(3) [OF assms(1) nonempty]
        assms(2))
  show ?thesis
    by (simp add: log payload submit_handler_submit_log requests_of_type_def image_request_def
        field_values_def)
qed

theorem two_images_no_audio_witness:
  "audioBlob (recorder two_images) = None
   \<and> files (uploader two_images) = [png ''a'', png ''b'']
   \<and> map form_type (upload_log (submit_handler store_all redirecting two_images)) =
       [''image'', ''image'']
   \<and> submit_log (submit_handler store_all redirecting two_images) =
       [[(''name'', ''Ada''), (''email'', ''ada@example.org''),
         (''image-urls'', ''https://blob.example/a.png,https://blob.example/b.png'')]]"
proof -
  have a: "store_all (length (upload_log two_images)) (image_request (png ''a'')) =
      Stored ''https://blob.example/a.png''"
    by (simp add: store_all_def image_request_def)
  have b: "store_all (Suc (length (upload_log two_images))) (image_request (png ''b'')) =
      Stored ''https://blob.example/b.png''"
    by (simp add: store_all_def image_request_def)
  show ?thesis
    using two_images_no_audio [OF two_images_page(2) two_images_page(1) a b, of redirecting]
    by (simp add: two_images_page image_request_def)
qed

text \<open>
  Claim C6 as stated fails when an upload fails: with the same two images and no audio,
  and a storage endpoint that answers the second upload with a failure, the single POST
  carries \<open>image-urls\<close> with one URL, not two.
\<close>

theorem two_images_one_upload_fails:
  "audioBlob (recorder two_images) = None
   \<and> files (uploader two_images) = [png ''a'', png ''b'']
   \<and> submit_log (submit_handler (store_all_but 1) redirecting two_images) =
       [[(''name'', ''Ada''), (''email'', ''ada@example.org''),
         (''image-urls'', ''https://blob.example/a.png'')]]"
proof -
  have nonempty: "files (uploader two_images) \<noteq> []"
    by (simp add: two_images_page)
  have upt: "[0..<length (files (uploader two_images))] = [0, 1]"
    by (simp add: two_images_page upt_conv_Cons)
  have urls: "stored_urls (map (reply_to (store_all_but 1) two_images)
      [0..<length (files (uploader two_images))]) = [''https://blob.example/a.png'']"
    unfolding upt
    by (simp add: two_images_page reply_to_def store_all_but_def store_all_def
        image_request_def)
  have "payload_of (store_all_but 1) two_images =
      [(''name'', ''Ada''), (''email'', ''ada@example.org''),
       (''image-urls'', ''https://blob.example/a.png'')]"
    unfolding payload_of_eq upload_media_no_audio [OF two_images_page(2) nonempty] urls
    by (simp add: formData_def two_images_page)
  then show ?thesis
    by (simp add: submit_handler_submit_log two_images_page)
qed

section \<open>Invariants of the pages reached from the loaded page\<close>

subsection \<open>Invariants along a run\<close>

lemma run_invariant:
  assumes step: "\<And>e p p'. P p \<Longrightarrow> step st sub e p = Inr p' \<Longrightarrow> P p'"
    and "P p" and "run st sub es p = Inr q"
  shows "P q"
  using assms(2,3)
proof (induction es arbitrary: p)
  case Nil
  then show ?case by simp
next
  case (Cons e es)
  from Cons.prems(2) obtain p' where s: "step st sub e p = Inr p'" and r: "run st sub es p' = Inr q"
    by (auto split: sum.splits)
  from step [OF Cons.prems(1) s] r show ?case
    by (rule Cons.IH)
qed

lemma upload_media_preserves:
  assumes dom: "\<And>q d. P (q\<lparr>dom := d\<rparr>) = P q"
    and up: "\<And>q. P q \<Longrightarrow> P (snd (upload st q))"
    and all: "\<And>q. P q \<Longrightarrow> P (snd (uploadAll st q))"
    and p: "P p"
  shows "P (snd (snd (upload_media st p)))"
proof -
  define p1 where
    "p1 = p\<lparr>dom := (dom p)\<lparr>submit_disabled := True, submit_text := ''Uploading files...''\<rparr>\<rparr>"
  define p2 where
    "p2 = snd (if audioBlob (recorder p1) \<noteq> None then upload st p1 else (None, p1))"
  define p3 where
    "p3 = snd (if length (files (uploader p2)) > 0
               then uploadAll st (p2\<lparr>dom := (dom p2)\<lparr>submit_text := ''Uploading images...''\<rparr>\<rparr>)
               else ([], p2))"
  have 1: "P p1"
    unfolding p1_def using p by (simp only: dom)
  have 2: "P p2"
    unfolding p2_def using 1 by (cases "audioBlob (recorder p1) = None") (simp_all add: up)
  have "P (p2\<lparr>dom := (dom p2)\<lparr>submit_text := ''Uploading images...''\<rparr>\<rparr>)"
    using 2 by (simp only: dom)
  then have 3: "P p3"
    unfolding p3_def using 2 by (cases "length (files (uploader p2)) > 0") (simp_all add: all)
  have "snd (snd (upload_media st p)) = p3\<lparr>dom := (dom p3)\<lparr>submit_text := ''Sending...''\<rparr>\<rparr>"
    by (simp add: upload_media_def Let_def split_beta p1_def p2_def p3_def)
  with 3 show ?thesis
    by (simp only: dom)
qed

lemma submit_handler_preserves:
  assumes dom: "\<And>q d. P (q\<lparr>dom := d\<rparr>) = P q"
    and log: "\<And>q l. P (q\<lparr>submit_log := l\<rparr>) = P q"
    and up: "\<And>q. P q \<Longrightarrow> P (snd (upload st q))"
    and all: "\<And>q. P q \<Longrightarrow> P (snd (uploadAll st q))"
    and p: "P p"
  shows "P (submit_handler st sub p)"
proof -
  have "P (snd (snd (upload_media st p)))"
    by (rule upload_media_preserves [of P, OF dom up all p])
  then show ?thesis
    by (simp add: submit_handler_def Let_def split_beta dom log split: sum.split)
qed

subsection \<open>What each handler leaves alone\<close>



subsection \<open>The uploaded URL\<close>

lemma url_of_some_artifact_iff:
  "url_of_some_artifact st p \<longleftrightarrow>
     (\<forall>u. uploadedUrl (recorder p) = Some u \<longrightarrow>
        (\<exists>k < length (upload_log p).
           form_type (upload_log p ! k) = ''audio'' \<and> st k (upload_log p ! k) = Stored u))"
  by (auto simp: url_of_some_artifact_def list_ex_iff split: option.splits)






lemma artifact_inv_dom [simp]: "artifact_inv st (p\<lparr>dom := d\<rparr>) = artifact_inv st p"
  by (simp add: artifact_inv_def url_of_some_artifact_iff)

lemma artifact_inv_submit_log [simp]:
  "artifact_inv st (p\<lparr>submit_log := l\<rparr>) = artifact_inv st p"
  by (simp add: artifact_inv_def url_of_some_artifact_iff)







lemma page_after_run:
  "run store_all failing es (loaded intake_dom) = Inr p \<Longrightarrow> page_after es = p"
  by (simp add: page_after_def)

lemma in_progress_run:
  "\<exists>p. run st sub in_progress (loaded intake_dom) = Inr p
     \<and> isRecording (recorder p)
     \<and> frames (timers p) = {3}
     \<and> intervals (timers p) = {2}
     \<and> recording_time (dom p) = Some ''0:01''
     \<and> waveform (dom p) = Some [[128, 130], [127, 129]]"
  unfolding in_progress_def
  by (simp add: page_defs)






subsection \<open>The redraw loop and the timer\<close>

lemma loops_tracked_same:
  assumes "loops_tracked p"
    and "timers p' = timers p"
    and "isRecording (recorder p') = isRecording (recorder p)"
    and "animationId (recorder p') = animationId (recorder p)"
    and "timerInterval (recorder p') = timerInterval (recorder p)"
    and "mediaRecorder (recorder p') = mediaRecorder (recorder p)"
  shows "loops_tracked p'"
  using assms unfolding loops_tracked_def by auto

lemma loops_tracked_updates [simp]:
  "loops_tracked (p\<lparr>dom := d\<rparr>) = loops_tracked p"
  "loops_tracked (p\<lparr>submit_log := l\<rparr>) = loops_tracked p"
  by (simp_all add: loops_tracked_def)

lemma loops_tracked_loaded: "loops_tracked (loaded d)"
  by (simp add: loops_tracked_def loaded_def new_VoiceRecorder_def)

lemma loops_tracked_draw:
  assumes "loops_tracked p" and "frames (timers p) = {}"
  shows "loops_tracked (draw samples p)"
  using assms
  by (auto simp: loops_tracked_def draw_def requestAnimationFrame_def Let_def)

lemma draw_frame:
  "intervals (timers (draw samples p)) = intervals (timers p)"
  "isRecording (recorder (draw samples p)) = isRecording (recorder p)"
  "recording_time (dom (draw samples p)) = recording_time (dom p)"
  by (simp_all add: draw_def requestAnimationFrame_def Let_def)

lemma loops_tracked_startTimer:
  assumes "loops_tracked p" and "intervals (timers p) = {}" and "isRecording (recorder p)"
  shows "loops_tracked (startTimer p)"
  using assms
  by (auto simp: loops_tracked_def startTimer_def setInterval_def Let_def split: option.splits)

lemma loops_tracked_start:
  assumes "loops_tracked p" and "\<not> isRecording (recorder p)"
    and "start now samples p = Inr p'"
  shows "loops_tracked p'"
proof -
  from assms(3) obtain mr where mr: "mediaRecorder (recorder p) = Some mr"
    by (auto simp: start_def split: option.splits)
  define p0 where "p0 = p\<lparr>recorder := (recorder p)
      \<lparr>audioChunks := [], mediaRecorder := Some (mr\<lparr>mr_recording := True\<rparr>),
       isRecording := True, startTime := Some now\<rparr>\<rparr>"
  have p': "p' = startTimer (startWaveform samples (recorder_updateUI p0))"
    using assms(3) mr by (auto simp: start_def p0_def split: if_splits)
  have 0: "loops_tracked p0" "frames (timers p0) = {}" "intervals (timers p0) = {}"
    "isRecording (recorder p0)"
    using assms(1,2) by (auto simp: loops_tracked_def p0_def)
  define p1 where "p1 = recorder_updateUI p0"
  have 1: "loops_tracked p1" "frames (timers p1) = {}" "intervals (timers p1) = {}"
    "isRecording (recorder p1)"
    using 0 by (auto simp: p1_def recorder_updateUI_def Let_def)
  define p2 where "p2 = startWaveform samples p1"
  have 2: "loops_tracked p2" "intervals (timers p2) = {}" "isRecording (recorder p2)"
    using 1 by (auto simp: p2_def startWaveform_def loops_tracked_draw draw_frame
        split: option.splits)
  show ?thesis
    unfolding p' using 2 by (simp add: p1_def [symmetric] p2_def [symmetric]
        loops_tracked_startTimer)
qed

lemma stop_result:
  assumes "loops_tracked p" and "stop p = Inr q"
  shows "loops_tracked q" and "frames (timers q) = {}" and "intervals (timers q) = {}"
    and "\<not> isRecording (recorder q)" and "dom q = dom p"
  using assms
  by (auto simp: loops_tracked_def stop_def stopTimer_def stopWaveform_def
      cancelAnimationFrame_def clearInterval_def split: option.splits if_splits)

lemma stop_returns:
  assumes "loops_tracked p" and "isRecording (recorder p)"
  shows "\<exists>q. stop p = Inr q"
  using assms by (auto simp: loops_tracked_def stop_def)

lemma only_tracked: "S \<subseteq> set_option a - {0} \<Longrightarrow> h \<in> S \<Longrightarrow> S = {h}"
  by (cases a) auto

lemma loops_tracked_fire_frame:
  assumes "loops_tracked p"
  shows "loops_tracked (fire_frame h samples p)"
proof (cases "h \<in> frames (timers p)")
  case False
  then show ?thesis using assms by (simp add: fire_frame_def)
next
  case True
  let ?p = "p\<lparr>timers := (timers p)\<lparr>frames := frames (timers p) - {h}\<rparr>\<rparr>"
  from assms have "frames (timers p) \<subseteq> set_option (animationId (recorder p)) - {0}"
    by (simp add: loops_tracked_def)
  from only_tracked [OF this True] have "frames (timers p) = {h}" .
  with assms have "loops_tracked ?p" and "frames (timers ?p) = {}"
    by (auto simp: loops_tracked_def)
  then have "loops_tracked (draw samples ?p)"
    by (rule loops_tracked_draw)
  with True show ?thesis by (simp add: fire_frame_def)
qed

lemma loops_tracked_init:
  assumes "loops_tracked p"
  shows "loops_tracked (snd (init mic p))"
    and "isRecording (recorder (snd (init mic p))) = isRecording (recorder p)"
  using assms
  by (auto simp: loops_tracked_def init_def Let_def split: microphone.splits)

lemma loops_tracked_record_click:
  assumes "loops_tracked p" and "record_click mic now samples p = Inr p'"
  shows "loops_tracked p'"
proof -
  define p1 where
    "p1 = snd (if mediaRecorder (recorder p) = None then init mic p else (True, p))"
  have 1: "loops_tracked p1"
    unfolding p1_def using assms(1)
    by (cases "mediaRecorder (recorder p) = None") (simp_all add: loops_tracked_init)
  from assms(2) consider
      (alert) d where "p' = p1\<lparr>dom := d\<rparr>"
    | (stop) "isRecording (recorder p1)" "stop p1 = Inr p'"
    | (start) "\<not> isRecording (recorder p1)" "start now samples p1 = Inr p'"
    by (auto simp: record_click_def p1_def Let_def split_beta split: if_splits)
  then show ?thesis
  proof cases
    case alert
    with 1 show ?thesis by simp
  next
    case stop
    from stop_result(1) [OF 1 stop(2)] show ?thesis .
  next
    case start
    from loops_tracked_start [OF 1 start] show ?thesis .
  qed
qed

lemma loops_tracked_upload: "loops_tracked p \<Longrightarrow> loops_tracked (snd (upload st p))"
  by (rule loops_tracked_same [of p])
     (simp_all add: upload_def Let_def split: option.split sum.split)

lemma loops_tracked_uploadAll: "loops_tracked p \<Longrightarrow> loops_tracked (snd (uploadAll st p))"
  by (rule loops_tracked_same [of p]) (simp_all add: uploadAll_eq)

lemma loops_tracked_step:
  assumes "loops_tracked p" and "step st sub e p = Inr p'"
  shows "loops_tracked p'"
proof (cases e)
  case (RecordClick mic now samples)
  with assms(2) have "record_click mic now samples p = Inr p'"
    by (simp add: step_def)
  from loops_tracked_record_click [OF assms(1) this] show ?thesis .
next
  case ClearClick
  with assms(2) have "p' = clear p"
    by (simp add: step_def)
  then show ?thesis
    by (intro loops_tracked_same [OF assms(1)]) (simp_all add: clear_def)
next
  case (DataAvailable chunk)
  with assms(2) have "p' = ondataavailable chunk p"
    by (simp add: step_def)
  then show ?thesis
    by (intro loops_tracked_same [OF assms(1)]) (simp_all add: ondataavailable_def)
next
  case (Stopped mr_type url)
  with assms(2) have "p' = onstop mr_type url p"
    by (simp add: step_def)
  then show ?thesis
    by (intro loops_tracked_same [OF assms(1)])
       (simp_all add: onstop_def recorder_updateUI_def Let_def)
next
  case Upload
  with assms(2) have "p' = snd (upload st p)"
    by (simp add: step_def)
  then show ?thesis
    by (simp add: loops_tracked_upload [OF assms(1)])
next
  case (Frame h samples)
  with assms(2) have "p' = fire_frame h samples p"
    by (simp add: step_def)
  then show ?thesis
    by (simp add: loops_tracked_fire_frame [OF assms(1)])
next
  case (Tick h now)
  with assms(2) have "p' = fire_interval h now p"
    by (simp add: step_def)
  then show ?thesis
    by (intro loops_tracked_same [OF assms(1)])
       (simp_all add: fire_interval_def timer_tick_def)
next
  case (AddFiles newFiles)
  with assms(2) have "p' = snd (addFiles newFiles p)"
    by (simp add: step_def)
  then show ?thesis
    by (intro loops_tracked_same [OF assms(1)]) simp_all
next
  case (RemoveClick i)
  with assms(2) have "p' = snd (removeFile i p)"
    by (simp add: step_def)
  then show ?thesis
    by (intro loops_tracked_same [OF assms(1)]) simp_all
next
  case Submit
  with assms(2) have "p' = submit_handler st sub p"
    by (simp add: step_def)
  then show ?thesis
    using assms(1)
    by (simp add: submit_handler_preserves [where P = loops_tracked]
        loops_tracked_upload loops_tracked_uploadAll)
qed

lemma loops_tracked_run:
  assumes "run st sub es (loaded d) = Inr p"
  shows "loops_tracked p"
  by (rule run_invariant [where P = loops_tracked, OF _ loops_tracked_loaded assms])
     (rule loops_tracked_step)

lemma nothing_fires:
  assumes "frames (timers q) = {}" and "intervals (timers q) = {}"
  shows "time_passes ts \<Longrightarrow> run st sub ts q = Inr q"
proof (induction ts rule: time_passes.induct)
  case 1
  show ?case by simp
next
  case (2 h samples es)
  then show ?case
    using assms by (simp add: step_def fire_frame_def)
next
  case (3 h now es)
  then show ?case
    using assms by (simp add: step_def fire_interval_def)
qed simp_all

text \<open>
  Claim C8: on every page reached from the loaded page, a call of \<open>stop\<close> made
  while the recorder is recording returns; and whenever \<open>stop\<close> returns, no frame
  request is pending and no interval is running afterwards, so that however many frame
  callbacks and interval callbacks the browser is asked to fire afterwards, with
  whatever handles, samples and clock values, the page stays as \<open>stop\<close> left it:
  no waveform is drawn and the time label is not written.
\<close>

theorem stop_cancels_loops:
  assumes "run st sub es (loaded d) = Inr p"
  shows "(isRecording (recorder p) \<longrightarrow> (\<exists>q. stop p = Inr q))
       \<and> (\<forall>q. stop p = Inr q \<longrightarrow>
              frames (timers q) = {} \<and> intervals (timers q) = {}
              \<and> (\<forall>ts. time_passes ts \<longrightarrow> run st sub ts q = Inr q))"
proof -
  have inv: "loops_tracked p"
    using assms by (rule loops_tracked_run)
  have "isRecording (recorder p) \<longrightarrow> (\<exists>q. stop p = Inr q)"
    using stop_returns [OF inv] by blast
  moreover have "\<forall>q. stop p = Inr q \<longrightarrow>
      frames (timers q) = {} \<and> intervals (timers q) = {}
      \<and> (\<forall>ts. time_passes ts \<longrightarrow> run st sub ts q = Inr q)"
    using stop_result(2,3) [OF inv] nothing_fires by blast
  ultimately show ?thesis by blast
qed

theorem stop_cancels_loops_witness:
  "run store_all failing in_progress (loaded intake_dom) = Inr (page_after in_progress)
   \<and> isRecording (recorder (page_after in_progress))
   \<and> frames (timers (page_after in_progress)) = {3}
   \<and> intervals (timers (page_after in_progress)) = {2}
   \<and> (\<exists>q. stop (page_after in_progress) = Inr q
          \<and> frames (timers q) = {} \<and> intervals (timers q) = {}
          \<and> run store_all failing [Frame 3 [1, 2], Tick 2 13000, Frame 3 [3]] q = Inr q)"
proof -
  obtain p where p: "run store_all failing in_progress (loaded intake_dom) = Inr p"
      "isRecording (recorder p)" "frames (timers p) = {3}" "intervals (timers p) = {2}"
    using in_progress_run by blast
  note loops = stop_cancels_loops [OF p(1)]
  from loops p(2) obtain q where q: "stop p = Inr q"
    by blast
  with loops have cancelled: "frames (timers q) = {}" "intervals (timers q) = {}"
    and quiet: "\<forall>ts. time_passes ts \<longrightarrow> run store_all failing ts q = Inr q"
    by blast+
  have "time_passes [Frame 3 [1, 2], Tick 2 13000, Frame 3 [3]]"
    by simp
  with quiet have "run store_all failing [Frame 3 [1, 2], Tick 2 13000, Frame 3 [3]] q = Inr q"
    by blast
  with p q cancelled show ?thesis
    unfolding page_after_run [OF p(1)] by blast
qed
end
